theory Spec2Isabelle
  imports Main "HOL-Library.Char_ord" "HOL-Library.List_Lexorder"
begin

section \<open>Python strings and POSIX paths\<close>

text \<open>
  Strings are \<open>char list\<close>, with the 8-bit characters of HOL; code points beyond them
  are outside the model. The path functions are those of Python's \<open>posixpath\<close>
  (\<open>os.sep = "/"\<close>), which is what \<open>os.path\<close> is on the platform the indexer is
  modelled on.
\<close>

definition sep :: char where
  "sep = CHR ''/''"

definition backslash :: char where
  "backslash = CHR 0x5C"

text \<open>\<open>s.count(c)\<close> for a one-character \<open>c\<close>.\<close>

definition count_char :: "char \<Rightarrow> string \<Rightarrow> nat" where
  "count_char c s = length (filter (\<lambda>x. x = c) s)"

text \<open>\<open>s.startswith(pre)\<close>.\<close>

definition startswith :: "string \<Rightarrow> string \<Rightarrow> bool" where
  "startswith s pre = (take (length pre) s = pre)"

text \<open>\<open>sep.join(xs)\<close>.\<close>

fun join :: "string \<Rightarrow> string list \<Rightarrow> string" where
  "join s [] = []"
| "join s [x] = x"
| "join s (x # y # ys) = x @ s @ join s (y # ys)"

text \<open>The characters \<open>str.strip()\<close> removes, among the 8-bit ones.\<close>

definition is_space :: "char \<Rightarrow> bool" where
  "is_space c = (c \<in> {CHR '' '', CHR 0x09, CHR 0x0A, CHR 0x0B, CHR 0x0C, CHR 0x0D,
                       CHR 0x1C, CHR 0x1D, CHR 0x1E, CHR 0x1F, CHR 0x85, CHR 0xA0})"

definition strip :: "string \<Rightarrow> string" where
  "strip s = rev (dropWhile is_space (rev (dropWhile is_space s)))"

text \<open>
  \<open>posixpath.split\<close>: \<open>i = p.rfind('/') + 1; head, tail = p[:i], p[i:]\<close>, and the head
  loses its trailing slashes unless it consists of slashes only.
\<close>

definition path_tail :: "string \<Rightarrow> string" where
  "path_tail p = rev (takeWhile (\<lambda>c. c \<noteq> sep) (rev p))"

definition path_head :: "string \<Rightarrow> string" where
  "path_head p = rev (dropWhile (\<lambda>c. c \<noteq> sep) (rev p))"

definition dirname :: "string \<Rightarrow> string" where
  "dirname p =
     (let head = path_head p
      in if head \<noteq> [] \<and> head \<noteq> replicate (length head) sep
         then rev (dropWhile (\<lambda>c. c = sep) (rev head))
         else head)"

definition basename :: "string \<Rightarrow> string" where
  "basename p = path_tail p"

text \<open>
  \<open>posixpath.splitext\<close> on a name: the extension starts at the last dot, unless only
  dots stand before it.
\<close>

definition splitext :: "string \<Rightarrow> string \<times> string" where
  "splitext p =
     (let name = path_tail p;
          ext_rev = takeWhile (\<lambda>c. c \<noteq> CHR ''.'') (rev name);
          rest = dropWhile (\<lambda>c. c \<noteq> CHR ''.'') (rev name)
      in case rest of
           [] \<Rightarrow> (p, [])
         | dot # stem_rev \<Rightarrow>
             if list_ex (\<lambda>c. c \<noteq> CHR ''.'') stem_rev
             then (take (length p - Suc (length ext_rev)) p, dot # rev ext_rev)
             else (p, []))"

text \<open>Decimal rendering of a length or count, as an f-string prints it.\<close>

definition digit_char :: "nat \<Rightarrow> char" where
  "digit_char n = char_of (48 + n)"

function str_nat :: "nat \<Rightarrow> string" where
  "str_nat n = (if n < 10 then [digit_char n] else str_nat (n div 10) @ [digit_char (n mod 10)])"
  by pat_completeness auto
termination
  by (relation "measure id") auto

declare str_nat.simps [simp del]

section \<open>The indexer (load\_data.py)\<close>

text \<open>
  What \<open>get_all_files\<close> maps a path to: decoded text, raw bytes, or \<open>None\<close>.
\<close>

datatype content = Text string | Bytes | NoContent

text \<open>
  A persisted record: the chunk text and the metadata fields, which the vector store
  writes at the top level of the stored document. The query tools test fields for
  presence, so every metadata field is optional in the store.
\<close>

record doc =
  page_content :: string
  source :: "string option"
  file_name :: "string option"
  file_extension :: "string option"
  directory :: "string option"
  depth :: "int option"

text \<open>The body of the loop over \<open>all_files.items()\<close> for one text file.\<close>

definition file_document :: "string \<Rightarrow> string \<Rightarrow> doc" where
  "file_document file_path text =
     (let directory_path = dirname file_path;
          file_name_with_ext = basename file_path;
          file_extension = snd (splitext file_name_with_ext);
          depth_dir = (if directory_path \<noteq> []
                       then (int (count_char sep directory_path) + 1, directory_path)
                       else (0, ''.''))
      in \<lparr> page_content = text,
           source = Some file_path,
           file_name = Some file_name_with_ext,
           file_extension = Some file_extension,
           directory = Some (snd depth_dir),
           depth = Some (fst depth_dir) \<rparr>)"

fun load_documents :: "(string \<times> content) list \<Rightarrow> doc list" where
  "load_documents [] = []"
| "load_documents ((file_path, Text text) # rest) =
     (if strip text \<noteq> [] then file_document file_path text # load_documents rest
      else load_documents rest)"
| "load_documents ((file_path, Bytes) # rest) = load_documents rest"
| "load_documents ((file_path, NoContent) # rest) = load_documents rest"

text \<open>
  \<open>text_splitter.split_documents\<close>: the splitter is a library; \<open>split_text\<close> stands for
  what it makes of one text. Every chunk carries a copy of its file's metadata.
\<close>

definition split_documents :: "(string \<Rightarrow> string list) \<Rightarrow> doc list \<Rightarrow> doc list" where
  "split_documents split_text documents =
     concat (map (\<lambda>d. map (\<lambda>chunk. d\<lparr>page_content := chunk\<rparr>) (split_text (page_content d)))
                 documents)"

text \<open>The records one indexing run persists.\<close>

definition index_repository :: "(string \<Rightarrow> string list) \<Rightarrow> (string \<times> content) list \<Rightarrow> doc list" where
  "index_repository split_text all_files = split_documents split_text (load_documents all_files)"

section \<open>The document store\<close>

subsection \<open>The \<open>$regex\<close> operator\<close>

text \<open>
  The store matches \<open>$regex\<close> patterns with a Perl-compatible engine, searching for the
  pattern anywhere in the value. The fragment modelled here: an optional leading \<open>^\<close>,
  then atoms (a plain character, \<open>.\<close>, or a backslash before a character that is not
  alphanumeric), each with at most one of the quantifiers \<open>*\<close>, \<open>+\<close>, \<open>?\<close>. A pattern
  with groups, alternatives, classes, braces, \<open>$\<close>, an inner \<open>^\<close>, a backslash before
  an alphanumeric character or at the end, a quantifier with nothing to repeat or two
  quantifiers in a row is outside the fragment: the store (field \<open>regex_ext\<close> below)
  says what the engine does with it.
\<close>

datatype atom = Lit char | AnyChar

datatype quant = Once | Star | Plus | Opt

datatype token = TAtom atom | TQuant quant

definition is_alnum :: "char \<Rightarrow> bool" where
  "is_alnum c = ((CHR ''0'' \<le> c \<and> c \<le> CHR ''9'') \<or> (CHR ''A'' \<le> c \<and> c \<le> CHR ''Z'')
                 \<or> (CHR ''a'' \<le> c \<and> c \<le> CHR ''z''))"

fun tokens :: "string \<Rightarrow> token list option" where
  "tokens [] = Some []"
| "tokens (c # cs) =
     (if c = backslash then
        (case cs of
           [] \<Rightarrow> None
         | d # ds \<Rightarrow> if is_alnum d then None else map_option (Cons (TAtom (Lit d))) (tokens ds))
      else if c = CHR ''.'' then map_option (Cons (TAtom AnyChar)) (tokens cs)
      else if c = CHR ''*'' then map_option (Cons (TQuant Star)) (tokens cs)
      else if c = CHR ''+'' then map_option (Cons (TQuant Plus)) (tokens cs)
      else if c = CHR ''?'' then map_option (Cons (TQuant Opt)) (tokens cs)
      else if c \<in> set ''^$|()[]{}'' then None
      else map_option (Cons (TAtom (Lit c))) (tokens cs))"

fun items :: "token list \<Rightarrow> (atom \<times> quant) list option" where
  "items [] = Some []"
| "items (TQuant q # ts) = None"
| "items (TAtom a # TQuant q # TQuant q' # ts) = None"
| "items (TAtom a # TQuant q # ts) = map_option (Cons (a, q)) (items ts)"
| "items (TAtom a # ts) = map_option (Cons (a, Once)) (items ts)"

text \<open>A parsed pattern: whether it is anchored at the start, and its items.\<close>

definition parse_pattern :: "string \<Rightarrow> (bool \<times> (atom \<times> quant) list) option" where
  "parse_pattern pat =
     (case pat of
        [] \<Rightarrow> Some (False, [])
      | c # cs \<Rightarrow>
          if c = CHR ''^'' then map_option (Pair True) (Option.bind (tokens cs) items)
          else map_option (Pair False) (Option.bind (tokens pat) items))"

text \<open>\<open>.\<close> matches every character but a newline.\<close>

fun atom_ok :: "atom \<Rightarrow> char \<Rightarrow> bool" where
  "atom_ok (Lit x) c = (c = x)"
| "atom_ok AnyChar c = (c \<noteq> CHR 0x0A)"

text \<open>Whether the items match a prefix of the text.\<close>

fun match_here :: "(atom \<times> quant) list \<Rightarrow> string \<Rightarrow> bool" where
  "match_here [] s = True"
| "match_here ((a, Once) # its) [] = False"
| "match_here ((a, Once) # its) (c # cs) = (atom_ok a c \<and> match_here its cs)"
| "match_here ((a, Opt) # its) [] = match_here its []"
| "match_here ((a, Opt) # its) (c # cs) =
     (match_here its (c # cs) \<or> (atom_ok a c \<and> match_here its cs))"
| "match_here ((a, Star) # its) [] = match_here its []"
| "match_here ((a, Star) # its) (c # cs) =
     (match_here its (c # cs) \<or> (atom_ok a c \<and> match_here ((a, Star) # its) cs))"
| "match_here ((a, Plus) # its) [] = False"
| "match_here ((a, Plus) # its) (c # cs) = (atom_ok a c \<and> match_here ((a, Star) # its) cs)"

text \<open>Whether they match at some position of the text.\<close>

fun search_from :: "(atom \<times> quant) list \<Rightarrow> string \<Rightarrow> bool" where
  "search_from its [] = match_here its []"
| "search_from its (c # cs) = (match_here its (c # cs) \<or> search_from its cs)"

definition regex_search :: "bool \<times> (atom \<times> quant) list \<Rightarrow> string \<Rightarrow> bool" where
  "regex_search p s = (if fst p then match_here (snd p) s else search_from (snd p) s)"

subsection \<open>Collections and queries\<close>

text \<open>
  A failure of a store call is a Python \<open>Exception\<close>, kept as its text: \<open>Inl e\<close> is the
  exception raised, \<open>Inr v\<close> the value returned.
\<close>

type_synonym 'a result = "string + 'a"

definition then_do :: "'a result \<Rightarrow> ('a \<Rightarrow> 'b result) \<Rightarrow> 'b result" where
  "then_do r f = (case r of Inl e \<Rightarrow> Inl e | Inr v \<Rightarrow> f v)"

text \<open>\<open>try: body  except Exception as e: handler(e)\<close>.\<close>

definition try_except :: "'a result \<Rightarrow> (string \<Rightarrow> 'a) \<Rightarrow> 'a result" where
  "try_except body handler = (case body of Inl e \<Rightarrow> Inr (handler e) | Inr v \<Rightarrow> Inr v)"

datatype call = Distinct | CountDocuments | FindOne | Find | Aggregate

text \<open>
  The collection the tools close over: its documents; which kinds of call fail, and with
  which exception text (\<open>None\<close>: the call goes through); and what the regex engine does
  with a pattern outside the modelled fragment (reject it, or a matching function).
\<close>

record collection =
  docs :: "doc list"
  fault :: "call \<Rightarrow> string option"
  regex_ext :: "string \<Rightarrow> (string \<Rightarrow> bool) result"

datatype field = FileName | Directory

fun get_field :: "field \<Rightarrow> doc \<Rightarrow> string option" where
  "get_field FileName d = file_name d"
| "get_field Directory d = directory d"

text \<open>
  The entries of the filter documents the tools send: \<open>{f: {'$exists': True}}\<close>,
  \<open>{f: {'$ne': s}}\<close>, \<open>{f: s}\<close>, \<open>{f: {'$regex': pat}}\<close> and \<open>{'depth': n}\<close>. A filter is
  the conjunction of its entries.
\<close>

datatype clause = Exists field | Ne field string | Eq field string | Regex field string
  | DepthEq int

definition compile_regex :: "collection \<Rightarrow> string \<Rightarrow> (string \<Rightarrow> bool) result" where
  "compile_regex coll pat =
     (case parse_pattern pat of Some p \<Rightarrow> Inr (regex_search p) | None \<Rightarrow> regex_ext coll pat)"

fun compile_clause :: "collection \<Rightarrow> clause \<Rightarrow> (doc \<Rightarrow> bool) result" where
  "compile_clause coll (Exists f) = Inr (\<lambda>d. get_field f d \<noteq> None)"
| "compile_clause coll (Ne f s) = Inr (\<lambda>d. get_field f d \<noteq> Some s)"
| "compile_clause coll (Eq f s) = Inr (\<lambda>d. get_field f d = Some s)"
| "compile_clause coll (Regex f pat) =
     then_do (compile_regex coll pat)
       (\<lambda>m. Inr (\<lambda>d. case get_field f d of None \<Rightarrow> False | Some s \<Rightarrow> m s))"
| "compile_clause coll (DepthEq n) = Inr (\<lambda>d. depth d = Some n)"

fun compile_filter :: "collection \<Rightarrow> clause list \<Rightarrow> (doc \<Rightarrow> bool) result" where
  "compile_filter coll [] = Inr (\<lambda>d. True)"
| "compile_filter coll (c # cs) =
     then_do (compile_clause coll c)
       (\<lambda>p. then_do (compile_filter coll cs) (\<lambda>q. Inr (\<lambda>d. p d \<and> q d)))"

text \<open>A call reaches the store or fails; the store then reads the filter.\<close>

definition run_query :: "collection \<Rightarrow> call \<Rightarrow> clause list \<Rightarrow> doc list result" where
  "run_query coll c flt =
     (case fault coll c of
        Some e \<Rightarrow> Inl e
      | None \<Rightarrow> then_do (compile_filter coll flt) (\<lambda>p. Inr (filter p (docs coll))))"

text \<open>\<open>collection.distinct(f, flt)\<close>: the distinct values of \<open>f\<close> among the matching documents.\<close>

definition distinct_values :: "collection \<Rightarrow> field \<Rightarrow> clause list \<Rightarrow> string list result" where
  "distinct_values coll f flt =
     then_do (run_query coll Distinct flt) (\<lambda>ds. Inr (remdups (List.map_filter (get_field f) ds)))"

definition count_documents :: "collection \<Rightarrow> clause list \<Rightarrow> nat result" where
  "count_documents coll flt = then_do (run_query coll CountDocuments flt) (\<lambda>ds. Inr (length ds))"

definition find_one :: "collection \<Rightarrow> clause list \<Rightarrow> doc option result" where
  "find_one coll flt =
     then_do (run_query coll FindOne flt) (\<lambda>ds. Inr (case ds of [] \<Rightarrow> None | d # _ \<Rightarrow> Some d))"

definition find_docs :: "collection \<Rightarrow> clause list \<Rightarrow> doc list result" where
  "find_docs coll flt = run_query coll Find flt"

text \<open>
  The pipeline \<open>[{$group: {_id: '$file_extension', count: {$sum: 1}}}, {$sort: {count: -1}}]\<close>:
  one row per extension value (\<open>None\<close>: the field is missing), with the number of
  documents that carry it, largest count first.
\<close>

definition extension_groups :: "doc list \<Rightarrow> (string option \<times> nat) list" where
  "extension_groups ds =
     map (\<lambda>k. (k, length (filter (\<lambda>d. file_extension d = k) ds)))
         (remdups (map file_extension ds))"

definition aggregate_extensions :: "collection \<Rightarrow> (string option \<times> nat) list result" where
  "aggregate_extensions coll =
     then_do (run_query coll Aggregate [])
       (\<lambda>ds. Inr (sort_key (\<lambda>row. - int (snd row)) (extension_groups ds)))"

section \<open>The structure tools (structure\_agent.py)\<close>

text \<open>
  A tool is a function of the collection and its argument. Its value \<open>Inr s\<close> is the
  string it returns to the agent; \<open>Inl e\<close> would be an exception leaving the tool. The
  \<open>print\<close> calls are left out.
\<close>

text \<open>\<open>', '.join(xs) if xs else 'None'\<close>, and a path between single quotes.\<close>

definition or_none :: "string list \<Rightarrow> string" where
  "or_none xs = (if xs \<noteq> [] then join '', '' xs else ''None'')"

definition quoted :: "string \<Rightarrow> string" where
  "quoted directory_path = [CHR 0x27] @ directory_path @ [CHR 0x27]"

text \<open>The sentences the directory tools return, with their arguments.\<close>

definition files_count_message :: "string \<Rightarrow> nat \<Rightarrow> string" where
  "files_count_message directory_path file_count_in_dir =
     ''Total number of files directly in directory '' @ quoted directory_path @ '': ''
     @ str_nat file_count_in_dir"

definition files_list_message :: "string \<Rightarrow> string list \<Rightarrow> string" where
  "files_list_message directory_path file_names =
     ''Files found directly in directory '' @ quoted directory_path @ '': '' @ or_none file_names"

definition subdirectory_count_message :: "string \<Rightarrow> nat \<Rightarrow> string" where
  "subdirectory_count_message directory_path subdirectory_count =
     ''Total number of subdirectories directly in directory '' @ quoted directory_path @ '': ''
     @ str_nat subdirectory_count"

definition subdirectory_list_message :: "string \<Rightarrow> string list \<Rightarrow> string" where
  "subdirectory_list_message directory_path immediate_subdirs =
     ''Subdirectories directly in directory '' @ quoted directory_path @ '': ''
     @ or_none immediate_subdirs"

definition not_found_message :: "string \<Rightarrow> string" where
  "not_found_message directory_path =
     ''Directory '' @ quoted directory_path @ '' not found or has no subdirectories indexed.''"

definition count_total_files :: "collection \<Rightarrow> string result" where
  "count_total_files coll =
     try_except
       (then_do (distinct_values coll FileName [Exists FileName])
          (\<lambda>unique_file_names.
             Inr (''Total number of unique original files indexed: ''
                  @ str_nat (length unique_file_names))))
       (\<lambda>e. ''Error counting total unique files: '' @ e)"

definition count_total_directories :: "collection \<Rightarrow> string result" where
  "count_total_directories coll =
     try_except
       (then_do (distinct_values coll Directory [Ne Directory ''.''])
          (\<lambda>dirs.
             Inr (''Total number of unique directories indexed (excluding root): ''
                  @ str_nat (length dirs))))
       (\<lambda>e. ''Error counting total directories: '' @ e)"

definition count_top_level_directories :: "collection \<Rightarrow> string result" where
  "count_top_level_directories coll =
     try_except
       (then_do (distinct_values coll Directory [DepthEq 1])
          (\<lambda>dirs. Inr (''Total number of top-level directories indexed: '' @ str_nat (length dirs))))
       (\<lambda>e. ''Error counting top-level directories: '' @ e)"

definition count_files_in_directory :: "collection \<Rightarrow> string \<Rightarrow> string result" where
  "count_files_in_directory coll directory_path =
     try_except
       (then_do (count_documents coll [Eq Directory directory_path])
          (\<lambda>file_count_in_dir.
             Inr (files_count_message directory_path file_count_in_dir)))
       (\<lambda>e. ''Error counting files in directory '' @ quoted directory_path @ '': '' @ e)"

text \<open>\<open>directory_path.replace(".", "\\.")\<close>.\<close>

definition escape_dots :: "string \<Rightarrow> string" where
  "escape_dots s = concat (map (\<lambda>c. if c = CHR ''.'' then [backslash, CHR ''.''] else [c]) s)"

text \<open>
  The steps the two subdirectory tools share, up to the \<open>distinct\<close> call: the depth of
  the directory itself, then the directories one level deeper under it. \<open>Inr None\<close>
  is the early return taken when no document with a depth is found for the directory.
\<close>

definition subdirectory_lookup :: "collection \<Rightarrow> string \<Rightarrow> string list option result" where
  "subdirectory_lookup coll directory_path =
     then_do
       (if directory_path = ''.'' then Inr (Some 0)
        else then_do (find_one coll [Eq Directory directory_path])
               (\<lambda>parent_doc. Inr (case parent_doc of None \<Rightarrow> None | Some pd \<Rightarrow> depth pd)))
       (\<lambda>found.
          case found of
            None \<Rightarrow> Inr None
          | Some parent_depth \<Rightarrow>
              (let target_depth = parent_depth + 1;
                   query_filter =
                     (if directory_path = ''.'' then [DepthEq 1]
                      else [Regex Directory (''^'' @ escape_dots directory_path @ ''/''),
                            DepthEq target_depth])
               in then_do (distinct_values coll Directory query_filter) (\<lambda>dirs. Inr (Some dirs))))"

text \<open>\<open>if directory_path != '.' and directory_path in xs: xs.remove(directory_path)\<close>.\<close>

definition drop_self :: "string \<Rightarrow> string list \<Rightarrow> string list" where
  "drop_self directory_path xs =
     (if directory_path \<noteq> ''.'' \<and> directory_path \<in> set xs then remove1 directory_path xs else xs)"

definition count_subdirectories_in_directory :: "collection \<Rightarrow> string \<Rightarrow> string result" where
  "count_subdirectories_in_directory coll directory_path =
     try_except
       (then_do (subdirectory_lookup coll directory_path)
          (\<lambda>r. case r of
                  None \<Rightarrow> Inr (not_found_message directory_path)
                | Some dirs \<Rightarrow>
                    (let immediate_subdirs = drop_self directory_path dirs;
                         subdirectory_count = length immediate_subdirs
                     in Inr (subdirectory_count_message directory_path subdirectory_count))))
       (\<lambda>e. ''Error counting subdirectories in directory '' @ quoted directory_path @ '': '' @ e)"

definition list_all_directories :: "collection \<Rightarrow> string result" where
  "list_all_directories coll =
     try_except
       (then_do (distinct_values coll Directory [Ne Directory ''.''])
          (\<lambda>dirs. Inr (''All unique directories: '' @ or_none (sort dirs))))
       (\<lambda>e. ''Error listing all directories: '' @ e)"

definition list_top_level_directories :: "collection \<Rightarrow> string result" where
  "list_top_level_directories coll =
     try_except
       (then_do (distinct_values coll Directory [DepthEq 1])
          (\<lambda>dirs. Inr (''Top-level directories: '' @ or_none (sort dirs))))
       (\<lambda>e. ''Error listing top-level directories: '' @ e)"

definition list_files_in_directory :: "collection \<Rightarrow> string \<Rightarrow> string result" where
  "list_files_in_directory coll directory_path =
     try_except
       (then_do (find_docs coll [Eq Directory directory_path])
          (\<lambda>files_in_dir.
             (let file_names = List.map_filter file_name files_in_dir
              in Inr (files_list_message directory_path file_names))))
       (\<lambda>e. ''Error listing files in directory '' @ quoted directory_path @ '': '' @ e)"

definition list_subdirectories_in_directory :: "collection \<Rightarrow> string \<Rightarrow> string result" where
  "list_subdirectories_in_directory coll directory_path =
     try_except
       (then_do (subdirectory_lookup coll directory_path)
          (\<lambda>r. case r of
                  None \<Rightarrow> Inr (not_found_message directory_path)
                | Some dirs \<Rightarrow>
                    (let immediate_subdirs = drop_self directory_path (sort dirs)
                     in Inr (subdirectory_list_message directory_path immediate_subdirs))))
       (\<lambda>e. ''Error listing subdirectories in directory '' @ quoted directory_path @ '': '' @ e)"

text \<open>One line of the extension report: an empty or missing extension prints as \<open>None\<close>.\<close>

definition extension_line :: "string option \<times> nat \<Rightarrow> string" where
  "extension_line item =
     ''- '' @ (case fst item of None \<Rightarrow> ''None'' | Some ext \<Rightarrow> if ext \<noteq> [] then ext else ''None'')
     @ '': '' @ str_nat (snd item)"

definition count_files_by_extension :: "collection \<Rightarrow> string result" where
  "count_files_by_extension coll =
     try_except
       (then_do (aggregate_extensions coll)
          (\<lambda>extension_counts.
             Inr (if extension_counts \<noteq> []
                  then ''File extension counts:'' @ [CHR 0x0A]
                       @ join [CHR 0x0A] (map extension_line extension_counts)
                  else ''No file extension data found.'')))
       (\<lambda>e. ''Error counting files by extension: '' @ e)"

section \<open>The content tools (content\_agent.py)\<close>

text \<open>
  A hit of the similarity search: the chunk text and the \<open>source\<close> entry of its metadata.
  The vector store is the search call itself: the query and \<open>k\<close> give hits or a failure.
\<close>

record hit =
  hit_source :: "string option"
  hit_content :: string

type_synonym vector_store = "string \<Rightarrow> nat \<Rightarrow> hit list result"

definition format_hit :: "hit \<Rightarrow> string" where
  "format_hit d =
     ''Source: '' @ (case hit_source d of None \<Rightarrow> ''N/A'' | Some s \<Rightarrow> s) @ [CHR 0x0A]
     @ ''Content:'' @ [CHR 0x0A] @ hit_content d"

definition content_search :: "vector_store \<Rightarrow> string \<Rightarrow> string result" where
  "content_search similarity_search query =
     try_except
       (then_do (similarity_search query 5)
          (\<lambda>docs. Inr (if docs \<noteq> []
                        then join ([CHR 0x0A] @ ''---'' @ [CHR 0x0A]) (map format_hit docs)
                        else ''No relevant document chunks found.'')))
       (\<lambda>e. ''Error during content search: '' @ e)"

definition summarize_repo_content :: "vector_store \<Rightarrow> string result" where
  "summarize_repo_content similarity_search =
     try_except
       (then_do (similarity_search ''overview of the repository content and structure'' 20)
          (\<lambda>docs. Inr (if docs \<noteq> []
                        then join ([CHR 0x0A] @ ''---'' @ [CHR 0x0A]) (map format_hit docs)
                        else ''Could not retrieve content for a general summary.'')))
       (\<lambda>e. ''Error retrieving content for summary: '' @ e)"

section \<open>Notions used to state the properties\<close>

text \<open>
  The characters the pattern syntax gives a meaning to, the dot apart (the one the
  tools escape). A plain path has none of them.
\<close>

definition regex_meta :: "char \<Rightarrow> bool" where
  "regex_meta c = (c = backslash \<or> c \<in> set ''^$|()[]{}*+?'')"

definition plain_path :: "string \<Rightarrow> bool" where
  "plain_path p = (\<forall>c\<in>set p. \<not> regex_meta c)"

text \<open>\<open>p.split('/')\<close>: the components of a path.\<close>

fun split_sep :: "string \<Rightarrow> string list" where
  "split_sep [] = [[]]"
| "split_sep (c # cs) =
     (if c = sep then [] # split_sep cs
      else (case split_sep cs of [] \<Rightarrow> [[c]] | x # xs \<Rightarrow> (c # x) # xs))"

text \<open>
  The paths a repository tree has, as the contents API returns them: relative, with no
  empty component and no component \<open>.\<close> or \<open>..\<close>.
\<close>

definition valid_repo_path :: "string \<Rightarrow> bool" where
  "valid_repo_path p = (\<forall>n\<in>set (split_sep p). n \<noteq> [] \<and> n \<noteq> ''.'' \<and> n \<noteq> ''..'')"

text \<open>
  The depth the data model gives a directory string, and the parent of a directory,
  with the root sentinel for the parent of a top-level directory.
\<close>

definition dir_depth :: "string \<Rightarrow> int" where
  "dir_depth dir = (if dir = ''.'' then 0 else int (count_char sep dir) + 1)"

definition parent_directory :: "string \<Rightarrow> string" where
  "parent_directory dir = (if dirname dir = [] then ''.'' else dirname dir)"

text \<open>A store whose calls all go through, and an engine that rejects what it is asked.\<close>

definition no_fault :: "call \<Rightarrow> string option" where
  "no_fault c = None"

definition reject :: "string \<Rightarrow> (string \<Rightarrow> bool) result" where
  "reject pat = Inl ''Regular expression is invalid''"

text \<open>
  A splitter that keeps every text whole; and the cut the recursive splitter makes of a
  text without separators that is longer than a chunk and shorter than two, scaled down
  from chunk size 1000 and overlap 100 to chunk size 3 and overlap 1: the first chunk,
  then the text from one overlap before its end.
\<close>

definition whole_text :: "string \<Rightarrow> string list" where
  "whole_text t = [t]"

definition two_windows :: "string \<Rightarrow> string list" where
  "two_windows t = [take 3 t, drop 2 t]"

definition indexed :: "(string \<Rightarrow> string list) \<Rightarrow> (string \<times> content) list \<Rightarrow> collection" where
  "indexed split_text all_files =
     \<lparr> docs = index_repository split_text all_files, fault = no_fault, regex_ext = reject \<rparr>"

text \<open>
  Three files, two of them named alike in different directories.
\<close>

definition same_name_repo :: collection where
  "same_name_repo = indexed whole_text
     [(''src/util.py'', Text ''a''), (''docs/a.md'', Text ''b''), (''tests/util.py'', Text ''c'')]"

text \<open>
  A root file, a top-level directory with a nested one, and a second top-level directory.
\<close>

definition scenario_a :: collection where
  "scenario_a = indexed whole_text
     [(''a.py'', Text ''x''), (''src/b.py'', Text ''y''), (''src/utils/c.py'', Text ''z''),
      (''docs/d.md'', Text ''w'')]"

text \<open>Files whose text the splitter cuts in two.\<close>

definition chunked_repo :: "(string \<times> content) list" where
  "chunked_repo =
     [(''README.md'', Text ''intro''), (''a.py'', Text ''xyzw''), (''src/b.py'', Text ''y'')]"

text \<open>
  The distinct directory values that begin with \<open>p + "/"\<close> and have depth \<open>D + 1\<close>: what
  the subdirectory tools are to count and list for a directory \<open>p\<close> of depth \<open>D\<close>.
\<close>

definition subdirs_under :: "doc list \<Rightarrow> string \<Rightarrow> int \<Rightarrow> string set" where
  "subdirs_under ds p D =
     {dir. startswith dir (p @ ''/'') \<and> (\<exists>d\<in>set ds. directory d = Some dir \<and> depth d = Some (D + 1))}"

text \<open>
  A directory beside one whose name it extends; and a directory whose name holds a
  \<open>+\<close>, alone and beside one that its name, read as a pattern, matches.
\<close>

definition src_old_repo :: collection where
  "src_old_repo = indexed whole_text
     [(''src/b.py'', Text ''b''), (''src/utils/c.py'', Text ''c''),
      (''src-old/d.py'', Text ''d''), (''src-old/x/e.py'', Text ''e'')]"

definition plus_repo :: collection where
  "plus_repo = indexed whole_text [(''a+b/x.py'', Text ''x''), (''a+b/c/y.py'', Text ''y'')]"

definition plus_twin_repo :: collection where
  "plus_twin_repo = indexed whole_text
     [(''a+b/x.py'', Text ''x''), (''a+b/c/y.py'', Text ''y''), (''aab/c/z.py'', Text ''z'')]"

text \<open>Path components that are names: not empty, not \<open>.\<close>, and free of the separator.\<close>

definition names :: "string list \<Rightarrow> bool" where
  "names cs = (\<forall>n\<in>set cs. n \<noteq> [] \<and> n \<noteq> ''.'' \<and> sep \<notin> set n)"

text \<open>
  Files at the root, in a top-level directory and in a nested one; and a single file
  whose text the splitter cuts in two.
\<close>

definition nested_files :: "(string \<times> content) list" where
  "nested_files =
     [(''a.py'', Text ''x''), (''src/b.py'', Text ''y''), (''src/c.py'', Text ''w''),
      (''src/utils/d.py'', Text ''z'')]"

definition one_file_repo :: collection where
  "one_file_repo = indexed two_windows [(''a.py'', Text ''xyzw'')]"

text \<open>
  A store none of whose calls goes through, a store whose \<open>distinct\<close> calls alone
  fail, and a vector store whose search fails.
\<close>

definition unreachable :: collection where
  "unreachable = \<lparr> docs = [], fault = (\<lambda>c. Some ''connection refused''), regex_ext = reject \<rparr>"

definition distinct_down :: collection where
  "distinct_down =
     \<lparr> docs = index_repository whole_text nested_files,
       fault = (\<lambda>c. if c = Distinct then Some ''cursor timed out'' else None),
       regex_ext = reject \<rparr>"

definition search_down :: vector_store where
  "search_down query k = Inl ''index not ready''"

section \<open>Basic facts\<close>

lemma try_except_returns: "\<exists>s. try_except body handler = Inr s"
  by (cases body) (simp_all add: try_except_def)

lemma try_except_Inr [simp]: "try_except (Inr v) handler = Inr v"
  by (simp add: try_except_def)

lemma try_except_Inl [simp]: "try_except (Inl e) handler = Inr (handler e)"
  by (simp add: try_except_def)

lemma then_do_Inr [simp]: "then_do (Inr v) f = f v"
  by (simp add: then_do_def)

lemma then_do_Inl [simp]: "then_do (Inl e) f = Inl e"
  by (simp add: then_do_def)

lemma run_query_fault: "fault coll c = Some e \<Longrightarrow> run_query coll c flt = Inl e"
  by (simp add: run_query_def)

lemma run_query_ok:
  "fault coll c = None \<Longrightarrow> compile_filter coll flt = Inr p
   \<Longrightarrow> run_query coll c flt = Inr (filter p (docs coll))"
  by (simp add: run_query_def)

lemma distinct_values_ok:
  "fault coll Distinct = None \<Longrightarrow> compile_filter coll flt = Inr p
   \<Longrightarrow> distinct_values coll f flt
       = Inr (remdups (List.map_filter (get_field f) (filter p (docs coll))))"
  by (simp add: distinct_values_def run_query_ok)

lemma set_map_filter: "set (List.map_filter f xs) = {y. \<exists>x\<in>set xs. f x = Some y}"
  by (induction xs) (auto simp: List.map_filter_simps split: option.splits)

lemma str_nat_digit: "n < 10 \<Longrightarrow> str_nat n = [digit_char n]"
  by (simp add: str_nat.simps)

lemma get_field_Directory: "get_field Directory = directory"
  by (rule ext) simp

section \<open>Failures become answers\<close>

lemma distinct_values_fault:
  "fault coll Distinct = Some e \<Longrightarrow> distinct_values coll f flt = Inl e"
  by (simp add: distinct_values_def run_query_fault)

lemma find_one_fault:
  "fault coll FindOne = Some e \<Longrightarrow> find_one coll flt = Inl e"
  by (simp add: find_one_def run_query_fault)

lemma subdirectory_lookup_failures:
  "(\<forall>e. p = ''.'' \<and> fault coll Distinct = Some e \<longrightarrow> subdirectory_lookup coll p = Inl e)
   \<and> (\<forall>e. p \<noteq> ''.'' \<and> fault coll FindOne = Some e \<longrightarrow> subdirectory_lookup coll p = Inl e)
   \<and> (\<forall>e pd D. p \<noteq> ''.'' \<and> find_one coll [Eq Directory p] = Inr (Some pd) \<and> depth pd = Some D
        \<and> distinct_values coll Directory
             [Regex Directory (''^'' @ escape_dots p @ ''/''), DepthEq (D + 1)] = Inl e
      \<longrightarrow> subdirectory_lookup coll p = Inl e)"
  by (simp add: subdirectory_lookup_def distinct_values_fault find_one_fault Let_def)

text \<open>
  C8. Whatever the collection holds, whichever store calls fail and whatever the
  argument, each of the ten structure tools and of the two content tools returns a
  string and lets no exception out. When the store call a tool makes fails, the tool
  answers with its own error sentence followed by the exception text: the \<open>distinct\<close>,
  \<open>count_documents\<close>, \<open>find\<close> or \<open>aggregate\<close> call of the counting and listing tools, the
  \<open>find_one\<close> call of the two subdirectory tools or, once that has returned a record
  with a depth, their \<open>distinct\<close> call (for the root, their only call), and the
  similarity search of the two content tools.
\<close>

theorem tools_never_raise:
  "(\<exists>s. count_total_files coll = Inr s)
   \<and> (\<exists>s. count_total_directories coll = Inr s)
   \<and> (\<exists>s. count_top_level_directories coll = Inr s)
   \<and> (\<exists>s. count_files_in_directory coll p = Inr s)
   \<and> (\<exists>s. count_subdirectories_in_directory coll p = Inr s)
   \<and> (\<exists>s. list_all_directories coll = Inr s)
   \<and> (\<exists>s. list_top_level_directories coll = Inr s)
   \<and> (\<exists>s. list_files_in_directory coll p = Inr s)
   \<and> (\<exists>s. list_subdirectories_in_directory coll p = Inr s)
   \<and> (\<exists>s. count_files_by_extension coll = Inr s)
   \<and> (\<exists>s. content_search vs q = Inr s)
   \<and> (\<exists>s. summarize_repo_content vs = Inr s)
   \<and> (\<forall>e. fault coll Distinct = Some e
         \<longrightarrow> count_total_files coll = Inr (''Error counting total unique files: '' @ e))
   \<and> (\<forall>e. vs q 5 = Inl e
         \<longrightarrow> content_search vs q = Inr (''Error during content search: '' @ e))
   \<and> (\<forall>e. fault coll Distinct = Some e
         \<longrightarrow> count_total_directories coll = Inr (''Error counting total directories: '' @ e))
   \<and> (\<forall>e. fault coll Distinct = Some e
         \<longrightarrow> count_top_level_directories coll
             = Inr (''Error counting top-level directories: '' @ e))
   \<and> (\<forall>e. fault coll CountDocuments = Some e
         \<longrightarrow> count_files_in_directory coll p
             = Inr (''Error counting files in directory '' @ [CHR 0x27] @ p @ [CHR 0x27]
                    @ '': '' @ e))
   \<and> (\<forall>e. p = ''.'' \<and> fault coll Distinct = Some e
         \<longrightarrow> count_subdirectories_in_directory coll p
             = Inr (''Error counting subdirectories in directory '' @ [CHR 0x27] @ p
                    @ [CHR 0x27] @ '': '' @ e))
   \<and> (\<forall>e. p \<noteq> ''.'' \<and> fault coll FindOne = Some e
         \<longrightarrow> count_subdirectories_in_directory coll p
             = Inr (''Error counting subdirectories in directory '' @ [CHR 0x27] @ p
                    @ [CHR 0x27] @ '': '' @ e))
   \<and> (\<forall>e pd D. p \<noteq> ''.'' \<and> find_one coll [Eq Directory p] = Inr (Some pd)
           \<and> depth pd = Some D
           \<and> distinct_values coll Directory
                [Regex Directory (''^'' @ escape_dots p @ ''/''), DepthEq (D + 1)] = Inl e
         \<longrightarrow> count_subdirectories_in_directory coll p
             = Inr (''Error counting subdirectories in directory '' @ [CHR 0x27] @ p
                    @ [CHR 0x27] @ '': '' @ e))
   \<and> (\<forall>e. fault coll Distinct = Some e
         \<longrightarrow> list_all_directories coll = Inr (''Error listing all directories: '' @ e))
   \<and> (\<forall>e. fault coll Distinct = Some e
         \<longrightarrow> list_top_level_directories coll
             = Inr (''Error listing top-level directories: '' @ e))
   \<and> (\<forall>e. fault coll Find = Some e
         \<longrightarrow> list_files_in_directory coll p
             = Inr (''Error listing files in directory '' @ [CHR 0x27] @ p @ [CHR 0x27]
                    @ '': '' @ e))
   \<and> (\<forall>e. p = ''.'' \<and> fault coll Distinct = Some e
         \<longrightarrow> list_subdirectories_in_directory coll p
             = Inr (''Error listing subdirectories in directory '' @ [CHR 0x27] @ p
                    @ [CHR 0x27] @ '': '' @ e))
   \<and> (\<forall>e. p \<noteq> ''.'' \<and> fault coll FindOne = Some e
         \<longrightarrow> list_subdirectories_in_directory coll p
             = Inr (''Error listing subdirectories in directory '' @ [CHR 0x27] @ p
                    @ [CHR 0x27] @ '': '' @ e))
   \<and> (\<forall>e pd D. p \<noteq> ''.'' \<and> find_one coll [Eq Directory p] = Inr (Some pd)
           \<and> depth pd = Some D
           \<and> distinct_values coll Directory
                [Regex Directory (''^'' @ escape_dots p @ ''/''), DepthEq (D + 1)] = Inl e
         \<longrightarrow> list_subdirectories_in_directory coll p
             = Inr (''Error listing subdirectories in directory '' @ [CHR 0x27] @ p
                    @ [CHR 0x27] @ '': '' @ e))
   \<and> (\<forall>e. fault coll Aggregate = Some e
         \<longrightarrow> count_files_by_extension coll = Inr (''Error counting files by extension: '' @ e))
   \<and> (\<forall>e. vs ''overview of the repository content and structure'' 20 = Inl e
         \<longrightarrow> summarize_repo_content vs = Inr (''Error retrieving content for summary: '' @ e))"
proof -
  have returns: "(\<exists>s. count_total_files coll = Inr s)
     \<and> (\<exists>s. count_total_directories coll = Inr s)
     \<and> (\<exists>s. count_top_level_directories coll = Inr s)
     \<and> (\<exists>s. count_files_in_directory coll p = Inr s)
     \<and> (\<exists>s. count_subdirectories_in_directory coll p = Inr s)
     \<and> (\<exists>s. list_all_directories coll = Inr s)
     \<and> (\<exists>s. list_top_level_directories coll = Inr s)
     \<and> (\<exists>s. list_files_in_directory coll p = Inr s)
     \<and> (\<exists>s. list_subdirectories_in_directory coll p = Inr s)
     \<and> (\<exists>s. count_files_by_extension coll = Inr s)
     \<and> (\<exists>s. content_search vs q = Inr s)
     \<and> (\<exists>s. summarize_repo_content vs = Inr s)"
    unfolding count_total_files_def count_total_directories_def count_top_level_directories_def
      count_files_in_directory_def count_subdirectories_in_directory_def list_all_directories_def
      list_top_level_directories_def list_files_in_directory_def
      list_subdirectories_in_directory_def count_files_by_extension_def content_search_def
      summarize_repo_content_def
    by (simp add: try_except_returns)
  have simple: "(\<forall>e. fault coll Distinct = Some e
         \<longrightarrow> count_total_files coll = Inr (''Error counting total unique files: '' @ e))
     \<and> (\<forall>e. vs q 5 = Inl e
         \<longrightarrow> content_search vs q = Inr (''Error during content search: '' @ e))
     \<and> (\<forall>e. fault coll Distinct = Some e
         \<longrightarrow> count_total_directories coll = Inr (''Error counting total directories: '' @ e))
     \<and> (\<forall>e. fault coll Distinct = Some e
         \<longrightarrow> count_top_level_directories coll
             = Inr (''Error counting top-level directories: '' @ e))
     \<and> (\<forall>e. fault coll CountDocuments = Some e
         \<longrightarrow> count_files_in_directory coll p
             = Inr (''Error counting files in directory '' @ [CHR 0x27] @ p @ [CHR 0x27]
                    @ '': '' @ e))"
    by (simp add: count_total_files_def content_search_def count_total_directories_def
          count_top_level_directories_def count_files_in_directory_def count_documents_def
          distinct_values_fault run_query_fault quoted_def)
  have lists: "(\<forall>e. fault coll Distinct = Some e
         \<longrightarrow> list_all_directories coll = Inr (''Error listing all directories: '' @ e))
     \<and> (\<forall>e. fault coll Distinct = Some e
         \<longrightarrow> list_top_level_directories coll
             = Inr (''Error listing top-level directories: '' @ e))
     \<and> (\<forall>e. fault coll Find = Some e
         \<longrightarrow> list_files_in_directory coll p
             = Inr (''Error listing files in directory '' @ [CHR 0x27] @ p @ [CHR 0x27]
                    @ '': '' @ e))
     \<and> (\<forall>e. fault coll Aggregate = Some e
         \<longrightarrow> count_files_by_extension coll = Inr (''Error counting files by extension: '' @ e))
     \<and> (\<forall>e. vs ''overview of the repository content and structure'' 20 = Inl e
         \<longrightarrow> summarize_repo_content vs = Inr (''Error retrieving content for summary: '' @ e))"
    by (simp add: list_all_directories_def list_top_level_directories_def
          list_files_in_directory_def find_docs_def count_files_by_extension_def
          aggregate_extensions_def summarize_repo_content_def distinct_values_fault
          run_query_fault quoted_def)
  have count_sub: "(\<forall>e. p = ''.'' \<and> fault coll Distinct = Some e
         \<longrightarrow> count_subdirectories_in_directory coll p
             = Inr (''Error counting subdirectories in directory '' @ [CHR 0x27] @ p
                    @ [CHR 0x27] @ '': '' @ e))
     \<and> (\<forall>e. p \<noteq> ''.'' \<and> fault coll FindOne = Some e
         \<longrightarrow> count_subdirectories_in_directory coll p
             = Inr (''Error counting subdirectories in directory '' @ [CHR 0x27] @ p
                    @ [CHR 0x27] @ '': '' @ e))
     \<and> (\<forall>e pd D. p \<noteq> ''.'' \<and> find_one coll [Eq Directory p] = Inr (Some pd)
           \<and> depth pd = Some D
           \<and> distinct_values coll Directory
                [Regex Directory (''^'' @ escape_dots p @ ''/''), DepthEq (D + 1)] = Inl e
         \<longrightarrow> count_subdirectories_in_directory coll p
             = Inr (''Error counting subdirectories in directory '' @ [CHR 0x27] @ p
                    @ [CHR 0x27] @ '': '' @ e))"
    using subdirectory_lookup_failures [of p coll]
    by (simp add: count_subdirectories_in_directory_def quoted_def)
  have list_sub: "(\<forall>e. p = ''.'' \<and> fault coll Distinct = Some e
         \<longrightarrow> list_subdirectories_in_directory coll p
             = Inr (''Error listing subdirectories in directory '' @ [CHR 0x27] @ p
                    @ [CHR 0x27] @ '': '' @ e))
     \<and> (\<forall>e. p \<noteq> ''.'' \<and> fault coll FindOne = Some e
         \<longrightarrow> list_subdirectories_in_directory coll p
             = Inr (''Error listing subdirectories in directory '' @ [CHR 0x27] @ p
                    @ [CHR 0x27] @ '': '' @ e))
     \<and> (\<forall>e pd D. p \<noteq> ''.'' \<and> find_one coll [Eq Directory p] = Inr (Some pd)
           \<and> depth pd = Some D
           \<and> distinct_values coll Directory
                [Regex Directory (''^'' @ escape_dots p @ ''/''), DepthEq (D + 1)] = Inl e
         \<longrightarrow> list_subdirectories_in_directory coll p
             = Inr (''Error listing subdirectories in directory '' @ [CHR 0x27] @ p
                    @ [CHR 0x27] @ '': '' @ e))"
    using subdirectory_lookup_failures [of p coll]
    by (simp add: list_subdirectories_in_directory_def quoted_def)
  show ?thesis
    by (intro conjI)
      (use returns in blast, use returns in blast, use returns in blast, use returns in blast,
       use returns in blast, use returns in blast, use returns in blast, use returns in blast,
       use returns in blast, use returns in blast, use returns in blast, use returns in blast,
       use simple in blast, use simple in blast, use simple in blast, use simple in blast,
       use simple in blast, use count_sub in blast, use count_sub in blast,
       use count_sub in blast, use lists in blast, use lists in blast, use lists in blast,
       use list_sub in blast, use list_sub in blast, use list_sub in blast, use lists in blast,
       use lists in blast)
qed


theorem tools_never_raise_witness:
  "count_total_files unreachable
     = Inr ''Error counting total unique files: connection refused''
   \<and> count_total_directories unreachable
     = Inr ''Error counting total directories: connection refused''
   \<and> count_top_level_directories unreachable
     = Inr ''Error counting top-level directories: connection refused''
   \<and> count_files_in_directory unreachable ''src''
     = Inr (''Error counting files in directory '' @ [CHR 0x27] @ ''src'' @ [CHR 0x27]
            @ '': connection refused'')
   \<and> count_subdirectories_in_directory unreachable ''src''
     = Inr (''Error counting subdirectories in directory '' @ [CHR 0x27] @ ''src'' @ [CHR 0x27]
            @ '': connection refused'')
   \<and> list_all_directories unreachable = Inr ''Error listing all directories: connection refused''
   \<and> list_top_level_directories unreachable
     = Inr ''Error listing top-level directories: connection refused''
   \<and> list_files_in_directory unreachable ''src''
     = Inr (''Error listing files in directory '' @ [CHR 0x27] @ ''src'' @ [CHR 0x27]
            @ '': connection refused'')
   \<and> list_subdirectories_in_directory unreachable ''src''
     = Inr (''Error listing subdirectories in directory '' @ [CHR 0x27] @ ''src'' @ [CHR 0x27]
            @ '': connection refused'')
   \<and> count_files_by_extension unreachable
     = Inr ''Error counting files by extension: connection refused''
   \<and> content_search search_down ''what is this''
     = Inr ''Error during content search: index not ready''
   \<and> summarize_repo_content search_down
     = Inr ''Error retrieving content for summary: index not ready''
   \<and> count_subdirectories_in_directory unreachable ''.''
     = Inr (''Error counting subdirectories in directory '' @ [CHR 0x27] @ ''.'' @ [CHR 0x27]
            @ '': connection refused'')
   \<and> list_subdirectories_in_directory unreachable ''.''
     = Inr (''Error listing subdirectories in directory '' @ [CHR 0x27] @ ''.'' @ [CHR 0x27]
            @ '': connection refused'')
   \<and> count_subdirectories_in_directory distinct_down ''src''
     = Inr (''Error counting subdirectories in directory '' @ [CHR 0x27] @ ''src'' @ [CHR 0x27]
            @ '': cursor timed out'')
   \<and> list_subdirectories_in_directory distinct_down ''src''
     = Inr (''Error listing subdirectories in directory '' @ [CHR 0x27] @ ''src'' @ [CHR 0x27]
            @ '': cursor timed out'')"
proof -
  have down: "fault unreachable c = Some ''connection refused''" for c
    by (simp add: unreachable_def)
  have search: "search_down query k = Inl ''index not ready''" for query k
    by (simp add: search_down_def)
  have named: "''src'' \<noteq> ''.''"
    by simp
  note at_src = tools_never_raise [of unreachable "''src''" search_down "''what is this''"]
  note at_root = tools_never_raise [of unreachable "''.''" search_down "''what is this''"]
  note at_down = tools_never_raise [of distinct_down "''src''" search_down "''what is this''"]
  have found: "find_one distinct_down [Eq Directory ''src'']
      = Inr (Some \<lparr>page_content = ''y'', source = Some ''src/b.py'', file_name = Some ''b.py'',
                    file_extension = Some ''.py'', directory = Some ''src'', depth = Some 1\<rparr>)"
    unfolding distinct_down_def nested_files_def by code_simp
  have failed: "distinct_values distinct_down Directory
      [Regex Directory (''^'' @ escape_dots ''src'' @ ''/''), DepthEq (1 + 1)] = Inl ''cursor timed out''"
    by (simp add: distinct_values_def run_query_fault distinct_down_def)
  have lost: "p \<noteq> ''.'' \<and> find_one distinct_down [Eq Directory ''src''] = Inr (Some pd)
      \<and> depth pd = Some 1
      \<and> distinct_values distinct_down Directory
           [Regex Directory (''^'' @ escape_dots ''src'' @ ''/''), DepthEq (1 + 1)]
         = Inl ''cursor timed out''"
    if "p = ''src''"
      "pd = \<lparr>page_content = ''y'', source = Some ''src/b.py'', file_name = Some ''b.py'',
             file_extension = Some ''.py'', directory = Some ''src'', depth = Some 1\<rparr>"
    for p pd
    using that found failed by simp
  show ?thesis
    by (intro conjI)
      (use at_src down in simp, use at_src down in simp, use at_src down in simp,
       use at_src down in simp, use at_src down named in simp, use at_src down in simp,
       use at_src down in simp, use at_src down in simp, use at_src down named in simp,
       use at_src down in simp, use at_src search in simp, use at_src search in simp,
       use at_root down in simp, use at_root down in simp,
       use at_down lost in simp, use at_down lost in simp)
qed

section \<open>Counting files\<close>

lemma count_total_files_eq:
  "count_total_files coll =
     (case fault coll Distinct of
        Some e \<Rightarrow> Inr (''Error counting total unique files: '' @ e)
      | None \<Rightarrow> Inr (''Total number of unique original files indexed: ''
                     @ str_nat (card {n. \<exists>d\<in>set (docs coll). file_name d = Some n})))"
proof (cases "fault coll Distinct")
  case None
  then have "distinct_values coll FileName [Exists FileName]
        = Inr (remdups (List.map_filter (get_field FileName)
                 (filter (\<lambda>d. get_field FileName d \<noteq> None \<and> True) (docs coll))))"
    by (rule distinct_values_ok) simp
  moreover have "set (List.map_filter (get_field FileName)
                 (filter (\<lambda>d. get_field FileName d \<noteq> None \<and> True) (docs coll)))
         = {n. \<exists>d\<in>set (docs coll). file_name d = Some n}"
    by (auto simp: set_map_filter)
  ultimately show ?thesis
    using None by (simp add: count_total_files_def length_remdups_card_conv)
next
  case (Some e)
  then show ?thesis
    by (simp add: count_total_files_def distinct_values_def run_query_fault)
qed

text \<open>
  C5. When the \<open>distinct\<close> call goes through, \<open>count_total_files\<close> reports the
  number of distinct \<open>file_name\<close> values among the records. Records named \<open>n\<close> in a
  directory \<open>dir2\<close> add nothing to the answer once a record named \<open>n\<close> stands in another
  directory: taking them out of the collection leaves the answer as it is.
\<close>

theorem count_total_files_distinct_names:
  "(fault coll Distinct = None \<longrightarrow>
      count_total_files coll
        = Inr (''Total number of unique original files indexed: ''
               @ str_nat (card {n. \<exists>d\<in>set (docs coll). file_name d = Some n})))
   \<and> ((\<exists>d\<in>set (docs coll). file_name d = Some n \<and> directory d \<noteq> Some dir2) \<longrightarrow>
      count_total_files
        (coll\<lparr>docs := filter (\<lambda>d. \<not> (file_name d = Some n \<and> directory d = Some dir2)) (docs coll)\<rparr>)
        = count_total_files coll)"
proof (intro conjI impI)
  assume "fault coll Distinct = None"
  then show "count_total_files coll
        = Inr (''Total number of unique original files indexed: ''
               @ str_nat (card {n. \<exists>d\<in>set (docs coll). file_name d = Some n}))"
    by (simp add: count_total_files_eq)
next
  assume "\<exists>d\<in>set (docs coll). file_name d = Some n \<and> directory d \<noteq> Some dir2"
  then obtain d1 where d1: "d1 \<in> set (docs coll)" "file_name d1 = Some n" "directory d1 \<noteq> Some dir2"
    by blast
  let ?keep = "filter (\<lambda>d. \<not> (file_name d = Some n \<and> directory d = Some dir2)) (docs coll)"
  have "{m. \<exists>d\<in>set ?keep. file_name d = Some m} = {m. \<exists>d\<in>set (docs coll). file_name d = Some m}"
  proof (intro set_eqI iffI; clarify)
    fix m d assume "d \<in> set ?keep" "file_name d = Some m"
    then show "\<exists>d\<in>set (docs coll). file_name d = Some m" by auto
  next
    fix m d assume d: "d \<in> set (docs coll)" "file_name d = Some m"
    show "\<exists>d\<in>set ?keep. file_name d = Some m"
    proof (cases "m = n")
      case True
      with d1 show ?thesis by auto
    next
      case False
      with d show ?thesis by auto
    qed
  qed
  then have "card {m. \<exists>d\<in>set (docs (coll\<lparr>docs := ?keep\<rparr>)). file_name d = Some m}
           = card {m. \<exists>d\<in>set (docs coll). file_name d = Some m}"
    by simp
  moreover have "fault (coll\<lparr>docs := ?keep\<rparr>) = fault coll"
    by simp
  ultimately show "count_total_files (coll\<lparr>docs := ?keep\<rparr>) = count_total_files coll"
    unfolding count_total_files_eq by (simp only:)
qed

theorem count_total_files_distinct_names_witness:
  "count_total_files same_name_repo = Inr ''Total number of unique original files indexed: 2''
   \<and> count_total_files
        (same_name_repo\<lparr>docs := filter (\<lambda>d. \<not> (file_name d = Some ''util.py''
                                                \<and> directory d = Some ''tests''))
                                      (docs same_name_repo)\<rparr>)
     = count_total_files same_name_repo"
proof -
  have total: "count_total_files same_name_repo
               = Inr ''Total number of unique original files indexed: 2''"
    unfolding same_name_repo_def by code_simp
  have other: "\<exists>d\<in>set (docs same_name_repo).
                 file_name d = Some ''util.py'' \<and> directory d \<noteq> Some ''tests''"
    unfolding same_name_repo_def by code_simp
  from count_total_files_distinct_names [of same_name_repo "''util.py''" "''tests''"] other
  have "count_total_files
          (same_name_repo\<lparr>docs := filter (\<lambda>d. \<not> (file_name d = Some ''util.py''
                                                  \<and> directory d = Some ''tests''))
                                        (docs same_name_repo)\<rparr>)
        = count_total_files same_name_repo"
    by blast
  with total show ?thesis by simp
qed

section \<open>Top-level directories\<close>

lemma subdirectory_lookup_root:
  "subdirectory_lookup coll ''.''
   = then_do (distinct_values coll Directory [DepthEq 1]) (\<lambda>dirs. Inr (Some dirs))"
  by (simp add: subdirectory_lookup_def)

text \<open>
  C7. When the \<open>distinct\<close> call goes through, \<open>list_top_level_directories\<close> returns
  its sentence with the distinct directory values of depth 1, sorted and joined by
  commas, and \<open>count_subdirectories_in_directory\<close> returns for the root its sentence with
  the number of those directories.
\<close>

theorem root_subdirectories_are_top_level:
  assumes "fault coll Distinct = None"
  defines "dirs \<equiv> sort (remdups (List.map_filter directory
                          (filter (\<lambda>d. depth d = Some 1) (docs coll))))"
  shows "distinct dirs \<and> sorted dirs
     \<and> set dirs = {dir. \<exists>d\<in>set (docs coll). directory d = Some dir \<and> depth d = Some 1}
     \<and> list_top_level_directories coll
         = Inr (''Top-level directories: ''
                @ (if dirs \<noteq> [] then join '', '' dirs else ''None''))
     \<and> count_subdirectories_in_directory coll ''.''
         = Inr (''Total number of subdirectories directly in directory '' @ [CHR 0x27] @ ''.''
                @ [CHR 0x27] @ '': '' @ str_nat (length dirs))"
proof -
  have q: "distinct_values coll Directory [DepthEq 1] = Inr (remdups (List.map_filter directory
              (filter (\<lambda>d. depth d = Some 1) (docs coll))))"
    using distinct_values_ok [OF assms(1), of "[DepthEq 1]" "\<lambda>d. depth d = Some 1 \<and> True" Directory]
    by (simp add: get_field_Directory)
  have "distinct dirs" and "sorted dirs"
    by (simp_all add: dirs_def)
  moreover have "set dirs
      = {dir. \<exists>d\<in>set (docs coll). directory d = Some dir \<and> depth d = Some 1}"
    by (auto simp: dirs_def set_map_filter)
  moreover have "list_top_level_directories coll
      = Inr (''Top-level directories: '' @ (if dirs \<noteq> [] then join '', '' dirs else ''None''))"
    by (simp add: list_top_level_directories_def q or_none_def dirs_def)
  moreover have "count_subdirectories_in_directory coll ''.''
      = Inr (''Total number of subdirectories directly in directory '' @ [CHR 0x27] @ ''.''
             @ [CHR 0x27] @ '': '' @ str_nat (length dirs))"
    by (simp add: count_subdirectories_in_directory_def subdirectory_lookup_root q drop_self_def
          subdirectory_count_message_def quoted_def dirs_def)
  ultimately show ?thesis
    by blast
qed

theorem root_subdirectories_are_top_level_witness:
  "list_top_level_directories scenario_a = Inr ''Top-level directories: docs, src''
   \<and> count_subdirectories_in_directory scenario_a ''.''
       = Inr (''Total number of subdirectories directly in directory '' @ [CHR 0x27] @ ''.''
              @ [CHR 0x27] @ '': 2'')"
proof -
  have ok: "fault scenario_a Distinct = None"
    by (simp add: scenario_a_def indexed_def no_fault_def)
  note answers = root_subdirectories_are_top_level [OF ok]
  note listing = answers [THEN conjunct2, THEN conjunct2, THEN conjunct2, THEN conjunct1]
  note counted = answers [THEN conjunct2, THEN conjunct2, THEN conjunct2, THEN conjunct2]
  show ?thesis
    unfolding listing counted by code_simp
qed

section \<open>Files of a directory\<close>

lemma load_documents_append:
  "load_documents (xs @ ys) = load_documents xs @ load_documents ys"
  by (induction xs rule: load_documents.induct) simp_all

lemma index_repository_append:
  "index_repository split_text (xs @ ys)
   = index_repository split_text xs @ index_repository split_text ys"
  by (simp add: index_repository_def split_documents_def load_documents_append)

lemma index_repository_text:
  "strip t \<noteq> [] \<Longrightarrow>
   index_repository split_text ((fp, Text t) # rest)
   = map (\<lambda>chunk. (file_document fp t)\<lparr>page_content := chunk\<rparr>) (split_text t)
     @ index_repository split_text rest"
  by (simp add: index_repository_def split_documents_def file_document_def Let_def)

lemma count_files_in_directory_ok:
  "fault coll CountDocuments = None \<Longrightarrow>
   count_files_in_directory coll dp
   = Inr (files_count_message dp (length (filter (\<lambda>d. directory d = Some dp) (docs coll))))"
  by (simp add: count_files_in_directory_def count_documents_def run_query_def)

lemma list_files_in_directory_ok:
  "fault coll Find = None \<Longrightarrow>
   list_files_in_directory coll dp
   = Inr (files_list_message dp
            (List.map_filter file_name (filter (\<lambda>d. directory d = Some dp) (docs coll))))"
  by (simp add: list_files_in_directory_def find_docs_def run_query_def)

lemma map_filter_append:
  "List.map_filter f (xs @ ys) = List.map_filter f xs @ List.map_filter f ys"
  by (simp add: List.map_filter_def)

lemma file_chunks_in_directory:
  assumes "directory (file_document fp t) = Some dp"
  shows "filter (\<lambda>d. directory d = Some dp)
           (map (\<lambda>chunk. (file_document fp t)\<lparr>page_content := chunk\<rparr>) chunks)
         = map (\<lambda>chunk. (file_document fp t)\<lparr>page_content := chunk\<rparr>) chunks"
  using assms by (induction chunks) simp_all

lemma file_chunks_names:
  "List.map_filter file_name (map (\<lambda>chunk. (file_document fp t)\<lparr>page_content := chunk\<rparr>) chunks)
   = replicate (length chunks) (basename fp)"
  by (induction chunks) (simp_all add: List.map_filter_simps file_document_def Let_def)

text \<open>
  C9. Take an indexed repository and one of its text files, \<open>fp\<close>, directly in the
  directory \<open>dp\<close>, whose text the splitter cuts into \<open>length (split_text t)\<close> chunks.
  \<open>count_files_in_directory\<close> returns for \<open>dp\<close> its sentence with the number of chunk
  records of the other files of \<open>dp\<close> plus that number of chunks, and
  \<open>list_files_in_directory\<close> returns its sentence with the names of those records joined
  by commas, the name of \<open>fp\<close> standing in it once for each chunk; without the file, the
  two answers hold the other records alone.
\<close>

theorem files_in_directory_per_chunk:
  assumes "fault coll CountDocuments = None" and "fault coll Find = None"
    and "docs coll = index_repository split_text (before @ (fp, Text t) # after)"
    and "strip t \<noteq> []" and "directory (file_document fp t) = Some dp"
  defines "others \<equiv> filter (\<lambda>d. directory d = Some dp)
                       (index_repository split_text (before @ after))"
    and "names_before \<equiv> List.map_filter file_name
                           (filter (\<lambda>d. directory d = Some dp)
                              (index_repository split_text before))"
    and "names_after \<equiv> List.map_filter file_name
                          (filter (\<lambda>d. directory d = Some dp)
                             (index_repository split_text after))"
  shows "count_files_in_directory (coll\<lparr>docs := index_repository split_text (before @ after)\<rparr>) dp
       = Inr (''Total number of files directly in directory '' @ [CHR 0x27] @ dp @ [CHR 0x27]
              @ '': '' @ str_nat (length others))
     \<and> count_files_in_directory coll dp
       = Inr (''Total number of files directly in directory '' @ [CHR 0x27] @ dp @ [CHR 0x27]
              @ '': '' @ str_nat (length others + length (split_text t)))
     \<and> list_files_in_directory (coll\<lparr>docs := index_repository split_text (before @ after)\<rparr>) dp
       = Inr (''Files found directly in directory '' @ [CHR 0x27] @ dp @ [CHR 0x27] @ '': ''
              @ (if names_before @ names_after \<noteq> []
                 then join '', '' (names_before @ names_after) else ''None''))
     \<and> list_files_in_directory coll dp
       = Inr (''Files found directly in directory '' @ [CHR 0x27] @ dp @ [CHR 0x27] @ '': ''
              @ (if names_before @ replicate (length (split_text t)) (basename fp) @ names_after
                    \<noteq> []
                 then join '', '' (names_before @ replicate (length (split_text t)) (basename fp)
                                   @ names_after)
                 else ''None''))"
proof -
  let ?in_dp = "filter (\<lambda>d. directory d = Some dp)"
  let ?b = "?in_dp (index_repository split_text before)"
  let ?a = "?in_dp (index_repository split_text after)"
  let ?chunks = "map (\<lambda>chunk. (file_document fp t)\<lparr>page_content := chunk\<rparr>) (split_text t)"
  let ?rest = "coll\<lparr>docs := index_repository split_text (before @ after)\<rparr>"
  have all: "?in_dp (docs coll) = ?b @ ?chunks @ ?a"
    using assms(3,4,5)
    by (simp add: index_repository_append index_repository_text file_chunks_in_directory)
  have rest: "?in_dp (docs ?rest) = ?b @ ?a"
    by (simp add: index_repository_append)
  have others: "others = ?b @ ?a"
    by (simp add: others_def index_repository_append)
  have f: "fault ?rest CountDocuments = None" "fault ?rest Find = None"
    using assms(1,2) by simp_all
  have "count_files_in_directory ?rest dp
       = Inr (''Total number of files directly in directory '' @ [CHR 0x27] @ dp @ [CHR 0x27]
              @ '': '' @ str_nat (length others))"
    unfolding count_files_in_directory_ok [OF f(1)] rest others
    by (simp add: files_count_message_def quoted_def)
  moreover have "count_files_in_directory coll dp
       = Inr (''Total number of files directly in directory '' @ [CHR 0x27] @ dp @ [CHR 0x27]
              @ '': '' @ str_nat (length others + length (split_text t)))"
    unfolding count_files_in_directory_ok [OF assms(1)] all others
    by (simp add: files_count_message_def quoted_def add.commute add.left_commute)
  moreover have "list_files_in_directory ?rest dp
       = Inr (''Files found directly in directory '' @ [CHR 0x27] @ dp @ [CHR 0x27] @ '': ''
              @ (if names_before @ names_after \<noteq> []
                 then join '', '' (names_before @ names_after) else ''None''))"
    unfolding list_files_in_directory_ok [OF f(2)] rest names_before_def names_after_def
    by (simp add: map_filter_append files_list_message_def quoted_def or_none_def)
  moreover have "list_files_in_directory coll dp
       = Inr (''Files found directly in directory '' @ [CHR 0x27] @ dp @ [CHR 0x27] @ '': ''
              @ (if names_before @ replicate (length (split_text t)) (basename fp) @ names_after
                    \<noteq> []
                 then join '', '' (names_before @ replicate (length (split_text t)) (basename fp)
                                   @ names_after)
                 else ''None''))"
    unfolding list_files_in_directory_ok [OF assms(2)] all names_before_def names_after_def
    by (simp add: map_filter_append file_chunks_names files_list_message_def quoted_def
          or_none_def)
  ultimately show ?thesis
    by blast
qed

theorem files_in_directory_per_chunk_witness:
  "count_files_in_directory
     ((indexed two_windows chunked_repo)
        \<lparr>docs := index_repository two_windows
                   ([(''README.md'', Text ''intro'')] @ [(''src/b.py'', Text ''y'')])\<rparr>) ''.''
     = Inr (''Total number of files directly in directory '' @ [CHR 0x27] @ ''.'' @ [CHR 0x27]
            @ '': 2'')
   \<and> count_files_in_directory (indexed two_windows chunked_repo) ''.''
     = Inr (''Total number of files directly in directory '' @ [CHR 0x27] @ ''.'' @ [CHR 0x27]
            @ '': 4'')
   \<and> list_files_in_directory
     ((indexed two_windows chunked_repo)
        \<lparr>docs := index_repository two_windows
                   ([(''README.md'', Text ''intro'')] @ [(''src/b.py'', Text ''y'')])\<rparr>) ''.''
     = Inr (''Files found directly in directory '' @ [CHR 0x27] @ ''.'' @ [CHR 0x27]
            @ '': README.md, README.md'')
   \<and> list_files_in_directory (indexed two_windows chunked_repo) ''.''
     = Inr (''Files found directly in directory '' @ [CHR 0x27] @ ''.'' @ [CHR 0x27]
            @ '': README.md, README.md, a.py, a.py'')"
proof -
  have calls: "fault (indexed two_windows chunked_repo) CountDocuments = None"
    "fault (indexed two_windows chunked_repo) Find = None"
    by (simp_all add: indexed_def no_fault_def)
  have files: "docs (indexed two_windows chunked_repo)
      = index_repository two_windows
          ([(''README.md'', Text ''intro'')] @ (''a.py'', Text ''xyzw'') # [(''src/b.py'', Text ''y'')])"
    by (simp add: indexed_def chunked_repo_def)
  have nonblank: "strip ''xyzw'' \<noteq> []"
    by code_simp
  have at_root: "directory (file_document ''a.py'' ''xyzw'') = Some ''.''"
    by code_simp
  note answers = files_in_directory_per_chunk [OF calls files nonblank at_root]
  note without = answers [THEN conjunct1]
  note counted = answers [THEN conjunct2, THEN conjunct1]
  note listed_without = answers [THEN conjunct2, THEN conjunct2, THEN conjunct1]
  note listed = answers [THEN conjunct2, THEN conjunct2, THEN conjunct2]
  show ?thesis
    unfolding without counted listed_without listed by code_simp
qed

section \<open>Subdirectories of a directory\<close>

subsection \<open>Paths without pattern characters\<close>

lemma escape_dots_Cons:
  "escape_dots (x # s) = (if x = CHR ''.'' then [backslash, CHR ''.''] else [x]) @ escape_dots s"
  by (simp add: escape_dots_def)

lemma tokens_escape_dots:
  "plain_path s \<Longrightarrow>
   tokens (escape_dots s @ r) = map_option ((@) (map (\<lambda>c. TAtom (Lit c)) s)) (tokens r)"
proof (induction s)
  case Nil
  show ?case by (simp add: escape_dots_def option.map_ident)
next
  case (Cons c s)
  then have ih: "tokens (escape_dots s @ r) = map_option ((@) (map (\<lambda>c. TAtom (Lit c)) s)) (tokens r)"
    and c: "\<not> regex_meta c"
    by (simp_all add: plain_path_def)
  show ?case
  proof (cases "c = CHR ''.''")
    case True
    then show ?thesis
      by (simp add: escape_dots_Cons ih is_alnum_def option.map_comp comp_def)
  next
    case False
    with c show ?thesis
      by (simp add: escape_dots_Cons ih regex_meta_def option.map_comp comp_def)
  qed
qed

lemma items_literals:
  "items (map (\<lambda>c. TAtom (Lit c)) s) = Some (map (\<lambda>c. (Lit c, Once)) s)"
proof (induction s)
  case Nil
  show ?case by simp
next
  case (Cons c s)
  then show ?case by (cases s) simp_all
qed

lemma match_here_literals:
  "match_here (map (\<lambda>c. (Lit c, Once)) s) t = startswith t s"
proof (induction s arbitrary: t)
  case Nil
  show ?case by (simp add: startswith_def)
next
  case (Cons c s)
  then show ?case by (cases t) (auto simp: startswith_def)
qed

lemma tokens_prefix_pattern:
  assumes "plain_path s"
  shows "tokens (escape_dots s @ ''/'') = Some (map (\<lambda>c. TAtom (Lit c)) (s @ ''/''))"
  using tokens_escape_dots [OF assms, of "''/''"] by (simp add: backslash_def)

lemma parse_prefix_pattern:
  "plain_path p \<Longrightarrow>
   parse_pattern (''^'' @ escape_dots p @ ''/'') = Some (True, map (\<lambda>c. (Lit c, Once)) (p @ ''/''))"
  using items_literals [of "p @ ''/''"]
  by (simp add: parse_pattern_def tokens_prefix_pattern del: map_append)

lemma compile_prefix_regex:
  "plain_path p \<Longrightarrow>
   compile_regex coll (''^'' @ escape_dots p @ ''/'') = Inr (\<lambda>s. startswith s (p @ ''/''))"
  using parse_prefix_pattern [of p]
  by (simp add: compile_regex_def regex_search_def match_here_literals fun_eq_iff del: map_append)

lemma find_one_ok:
  "fault coll FindOne = None \<Longrightarrow>
   find_one coll [Eq Directory p] = Inr (List.find (\<lambda>d. directory d = Some p) (docs coll))"
proof -
  assume "fault coll FindOne = None"
  moreover have "(case filter (\<lambda>d. directory d = Some p) xs of [] \<Rightarrow> None | d # _ \<Rightarrow> Some d)
        = List.find (\<lambda>d. directory d = Some p) xs" for xs :: "doc list"
    by (induction xs) simp_all
  ultimately show ?thesis
    by (simp add: find_one_def run_query_def)
qed

lemma startswith_longer: "startswith s (p @ x # r) \<Longrightarrow> s \<noteq> p"
  by (auto simp: startswith_def)

lemma subdirectory_lookup_plain:
  assumes "plain_path p" and "p \<noteq> ''.''"
    and "fault coll FindOne = None" and "fault coll Distinct = None"
  shows "subdirectory_lookup coll p =
     Inr (case List.find (\<lambda>d. directory d = Some p) (docs coll) of
            None \<Rightarrow> None
          | Some pd \<Rightarrow>
              (case depth pd of
                 None \<Rightarrow> None
               | Some D \<Rightarrow>
                   Some (remdups (List.map_filter directory
                           (filter (\<lambda>d. (case directory d of None \<Rightarrow> False
                                          | Some s \<Rightarrow> startswith s (p @ ''/''))
                                        \<and> depth d = Some (D + 1))
                                   (docs coll))))))"
proof -
  have flt: "compile_filter coll [Regex Directory (''^'' @ escape_dots p @ ''/''), DepthEq t]
      = Inr (\<lambda>d. (case directory d of None \<Rightarrow> False | Some s \<Rightarrow> startswith s (p @ ''/''))
                 \<and> depth d = Some t \<and> True)" for t
    using compile_prefix_regex [OF assms(1), of coll] by simp
  have dv: "distinct_values coll Directory
               [Regex Directory (''^'' @ escape_dots p @ ''/''), DepthEq t]
      = Inr (remdups (List.map_filter directory
               (filter (\<lambda>d. (case directory d of None \<Rightarrow> False | Some s \<Rightarrow> startswith s (p @ ''/''))
                            \<and> depth d = Some t) (docs coll))))" for t
    using distinct_values_ok [OF assms(4) flt, of Directory t]
    by (simp add: get_field_Directory)
  show ?thesis
    unfolding subdirectory_lookup_def find_one_ok [OF assms(3)]
    using assms(2) dv
    by (simp add: Let_def split: option.splits del: append.simps)
qed

lemma count_subdirectories_plain:
  assumes "plain_path p" and "p \<noteq> ''.''"
    and "fault coll FindOne = None" and "fault coll Distinct = None"
  shows "count_subdirectories_in_directory coll p =
     Inr (case List.find (\<lambda>d. directory d = Some p) (docs coll) of
            None \<Rightarrow> not_found_message p
          | Some pd \<Rightarrow>
              (case depth pd of
                 None \<Rightarrow> not_found_message p
               | Some D \<Rightarrow> subdirectory_count_message p (card (subdirs_under (docs coll) p D))))"
proof -
  have set_eq: "set (remdups (List.map_filter directory
                   (filter (\<lambda>d. (case directory d of None \<Rightarrow> False
                                  | Some s \<Rightarrow> startswith s (p @ ''/''))
                                \<and> depth d = Some (D + 1)) (docs coll))))
        = subdirs_under (docs coll) p D" for D
    by (auto simp: set_map_filter subdirs_under_def split: option.splits)
  have no_self: "drop_self p (remdups xs) = remdups xs"
    if "set xs = subdirs_under (docs coll) p D" for xs D
  proof -
    have "p \<notin> set xs"
      using that startswith_longer [of p p "CHR ''/''" "[]"] by (auto simp: subdirs_under_def)
    then show ?thesis by (simp add: drop_self_def)
  qed
  show ?thesis
    unfolding count_subdirectories_in_directory_def subdirectory_lookup_plain [OF assms]
    using set_eq no_self
    by (simp add: Let_def length_remdups_card_conv split: option.splits)
qed


lemma find_filter_keep:
  "(\<And>x. P x \<Longrightarrow> Q x) \<Longrightarrow> List.find P (filter Q xs) = List.find P xs"
  by (induction xs) auto

lemma not_startswith_extension:
  "ext \<noteq> [] \<Longrightarrow> hd ext \<noteq> sep \<Longrightarrow> \<not> startswith (p @ ext) (p @ [sep])"
  by (cases ext) (simp_all add: startswith_def)

text \<open>
  C6. When the store calls go through, \<open>count_subdirectories_in_directory\<close> for \<open>src\<close>
  reports the number of distinct directory values of the next depth that begin with
  \<open>src/\<close>. A directory whose name extends \<open>src\<close> by anything that does not start with the
  separator (\<open>src-old\<close>, \<open>src-utils\<close>) is not among them, and taking its records out of the
  collection leaves the answer as it is.
\<close>

theorem src_count_anchors_on_separator:
  assumes "fault coll FindOne = None" and "fault coll Distinct = None"
    and "ext \<noteq> []" and "hd ext \<noteq> sep"
  shows "count_subdirectories_in_directory coll ''src'' =
           Inr (case List.find (\<lambda>d. directory d = Some ''src'') (docs coll) of
                  None \<Rightarrow> not_found_message ''src''
                | Some pd \<Rightarrow>
                    (case depth pd of
                       None \<Rightarrow> not_found_message ''src''
                     | Some D \<Rightarrow>
                         subdirectory_count_message ''src''
                           (card (subdirs_under (docs coll) ''src'' D))))
         \<and> ''src'' @ ext \<notin> subdirs_under (docs coll) ''src'' D
         \<and> count_subdirectories_in_directory
             (coll\<lparr>docs := filter (\<lambda>d. directory d \<noteq> Some (''src'' @ ext)) (docs coll)\<rparr>) ''src''
           = count_subdirectories_in_directory coll ''src''"
proof -
  let ?keep = "\<lambda>d. directory d \<noteq> Some (''src'' @ ext)"
  let ?rest = "coll\<lparr>docs := filter ?keep (docs coll)\<rparr>"
  have plain: "plain_path ''src''" and not_root: "''src'' \<noteq> ''.''"
    by (simp_all add: plain_path_def regex_meta_def backslash_def)
  have off: "\<not> startswith (''src'' @ ext) (''src'' @ ''/'')"
    using not_startswith_extension [OF assms(3,4), of "''src''"] by (simp add: sep_def)
  have out: "''src'' @ ext \<notin> subdirs_under ds ''src'' E" for ds E
    using off by (simp add: subdirs_under_def)
  have same_find: "List.find (\<lambda>d. directory d = Some ''src'') (filter ?keep (docs coll))
      = List.find (\<lambda>d. directory d = Some ''src'') (docs coll)"
    using assms(3) by (intro find_filter_keep) auto
  have same_set: "subdirs_under (filter ?keep (docs coll)) ''src'' E
      = subdirs_under (docs coll) ''src'' E" for E
    using off by (auto simp: subdirs_under_def)
  have f: "fault ?rest FindOne = None" "fault ?rest Distinct = None"
    using assms(1,2) by simp_all
  have d: "docs ?rest = filter ?keep (docs coll)"
    by simp
  have "count_subdirectories_in_directory ?rest ''src''
      = count_subdirectories_in_directory coll ''src''"
    unfolding count_subdirectories_plain [OF plain not_root f]
      count_subdirectories_plain [OF plain not_root assms(1,2)] d same_find same_set
    by (rule refl)
  with out count_subdirectories_plain [OF plain not_root assms(1,2)] show ?thesis
    by blast
qed

theorem src_count_anchors_on_separator_witness:
  "count_subdirectories_in_directory src_old_repo ''src''
     = Inr (subdirectory_count_message ''src'' 1)
   \<and> ''src'' @ ''-old'' \<notin> subdirs_under (docs src_old_repo) ''src'' 1
   \<and> count_subdirectories_in_directory
       (src_old_repo\<lparr>docs := filter (\<lambda>d. directory d \<noteq> Some (''src'' @ ''-old''))
                                     (docs src_old_repo)\<rparr>) ''src''
     = count_subdirectories_in_directory src_old_repo ''src''"
proof -
  have "fault src_old_repo FindOne = None" and "fault src_old_repo Distinct = None"
    by (simp_all add: src_old_repo_def indexed_def no_fault_def)
  moreover have "''-old'' \<noteq> []" and "hd ''-old'' \<noteq> sep"
    by (simp_all add: sep_def)
  ultimately have "''src'' @ ''-old'' \<notin> subdirs_under (docs src_old_repo) ''src'' 1
     \<and> count_subdirectories_in_directory
         (src_old_repo\<lparr>docs := filter (\<lambda>d. directory d \<noteq> Some (''src'' @ ''-old''))
                                       (docs src_old_repo)\<rparr>) ''src''
       = count_subdirectories_in_directory src_old_repo ''src''"
    using src_count_anchors_on_separator [of src_old_repo "''-old''" 1] by blast
  moreover have "count_subdirectories_in_directory src_old_repo ''src''
     = Inr (subdirectory_count_message ''src'' 1)"
    unfolding src_old_repo_def by code_simp
  ultimately show ?thesis
    by blast
qed

subsection \<open>Paths with pattern characters\<close>

lemma indexed_docs_plus:
  "docs plus_repo =
     [\<lparr>page_content = ''x'', source = Some ''a+b/x.py'', file_name = Some ''x.py'',
       file_extension = Some ''.py'', directory = Some ''a+b'', depth = Some 1\<rparr>,
      \<lparr>page_content = ''y'', source = Some ''a+b/c/y.py'', file_name = Some ''y.py'',
       file_extension = Some ''.py'', directory = Some ''a+b/c'', depth = Some 2\<rparr>]"
  unfolding plus_repo_def by code_simp

text \<open>
  C1. In the repository with the files \<open>a+b/x.py\<close> and \<open>a+b/c/y.py\<close>, the directory \<open>a+b\<close> has
  a record, of depth 1, and one directory value begins with \<open>a+b/\<close> at depth 2, namely
  \<open>a+b/c\<close>; \<open>count_subdirectories_in_directory\<close> reports 0 for \<open>a+b\<close>.
\<close>

theorem plus_path_subdirectory_missed:
  "List.find (\<lambda>d. directory d = Some ''a+b'') (docs plus_repo)
     = Some \<lparr>page_content = ''x'', source = Some ''a+b/x.py'', file_name = Some ''x.py'',
              file_extension = Some ''.py'', directory = Some ''a+b'', depth = Some 1\<rparr>
   \<and> subdirs_under (docs plus_repo) ''a+b'' 1 = {''a+b/c''}
   \<and> count_subdirectories_in_directory plus_repo ''a+b''
       = Inr (subdirectory_count_message ''a+b'' 0)"
proof -
  have "List.find (\<lambda>d. directory d = Some ''a+b'') (docs plus_repo)
     = Some \<lparr>page_content = ''x'', source = Some ''a+b/x.py'', file_name = Some ''x.py'',
              file_extension = Some ''.py'', directory = Some ''a+b'', depth = Some 1\<rparr>"
    by (simp add: indexed_docs_plus)
  moreover have "subdirs_under (docs plus_repo) ''a+b'' 1 = {''a+b/c''}"
    by (auto simp: indexed_docs_plus subdirs_under_def startswith_def)
  moreover have "count_subdirectories_in_directory plus_repo ''a+b''
       = Inr (subdirectory_count_message ''a+b'' 0)"
    unfolding plus_repo_def by code_simp
  ultimately show ?thesis
    by blast
qed

text \<open>
  C3. Only dots are escaped: for \<open>a+b\<close> the pattern sent is \<open>^a+b/\<close>, whose \<open>+\<close> repeats the
  \<open>a\<close>. The directory \<open>a+b/c\<close>, which starts with \<open>a+b/\<close>, is not matched, and the directory
  \<open>aab/c\<close>, which does not, is listed and counted in its place.
\<close>

theorem plus_path_prefix_not_literal:
  "escape_dots ''a+b'' = ''a+b''
   \<and> parse_pattern (''^'' @ escape_dots ''a+b'' @ ''/'')
       = Some (True, [(Lit (CHR ''a''), Plus), (Lit (CHR ''b''), Once), (Lit (CHR ''/''), Once)])
   \<and> startswith ''a+b/c'' (''a+b'' @ ''/'')
   \<and> \<not> startswith ''aab/c'' (''a+b'' @ ''/'')
   \<and> list_subdirectories_in_directory plus_twin_repo ''a+b''
       = Inr (subdirectory_list_message ''a+b'' [''aab/c''])
   \<and> count_subdirectories_in_directory plus_twin_repo ''a+b''
       = Inr (subdirectory_count_message ''a+b'' 1)
   \<and> list_subdirectories_in_directory plus_repo ''a+b''
       = Inr (subdirectory_list_message ''a+b'' [])"
  unfolding plus_twin_repo_def plus_repo_def by code_simp

section \<open>Depth and directory in the index\<close>

subsection \<open>Paths and their components\<close>

lemma split_sep_nonempty: "split_sep p \<noteq> []"
  by (induction p) (auto split: list.splits)

lemma join_split_sep: "join [sep] (split_sep p) = p"
proof (induction p)
  case Nil
  show ?case by simp
next
  case (Cons c p)
  obtain x xs where x: "split_sep p = x # xs"
    using split_sep_nonempty [of p] by (cases "split_sep p") auto
  with Cons show ?case
    by (cases xs) auto
qed

lemma split_sep_free: "n \<in> set (split_sep p) \<Longrightarrow> sep \<notin> set n"
proof (induction p arbitrary: n)
  case Nil
  then show ?case by simp
next
  case (Cons c p)
  obtain x xs where x: "split_sep p = x # xs"
    using split_sep_nonempty [of p] by (cases "split_sep p") auto
  with Cons show ?case
    by (auto split: if_splits)
qed

lemma join_snoc: "cs \<noteq> [] \<Longrightarrow> join s (cs @ [t]) = join s cs @ s @ t"
  by (induction s cs rule: join.induct) simp_all

lemma last_join:
  "cs \<noteq> [] \<Longrightarrow> last cs \<noteq> [] \<Longrightarrow> join s cs \<noteq> [] \<and> last (join s cs) = last (last cs)"
  by (induction s cs rule: join.induct) auto

lemma count_sep_join:
  "cs \<noteq> [] \<Longrightarrow> \<forall>n\<in>set cs. sep \<notin> set n \<Longrightarrow> count_char sep (join [sep] cs) = length cs - 1"
proof (induction "[sep]" cs rule: join.induct)
  case 1
  then show ?case by simp
next
  case (2 x)
  then have "filter (\<lambda>c. c = sep) x = []"
    by (auto simp: filter_empty_conv)
  then show ?case by (simp add: count_char_def)
next
  case (3 x y ys)
  then have "filter (\<lambda>c. c = sep) x = []"
    by (auto simp: filter_empty_conv)
  with 3 show ?case by (simp add: count_char_def)
qed

lemma takeWhile_until: "x \<notin> set xs \<Longrightarrow> takeWhile (\<lambda>c. c \<noteq> x) (xs @ x # r) = xs"
  by (induction xs) auto

lemma dropWhile_until: "x \<notin> set xs \<Longrightarrow> dropWhile (\<lambda>c. c \<noteq> x) (xs @ x # r) = x # r"
  by (induction xs) auto

lemma takeWhile_none: "x \<notin> set xs \<Longrightarrow> takeWhile (\<lambda>c. c \<noteq> x) xs = xs"
  by (induction xs) auto

lemma dropWhile_none: "x \<notin> set xs \<Longrightarrow> dropWhile (\<lambda>c. c \<noteq> x) xs = []"
  by (induction xs) auto

lemma path_tail_join:
  assumes "sep \<notin> set t"
  shows "path_tail (join [sep] (cs @ [t])) = t"
proof (cases "cs = []")
  case True
  with assms show ?thesis
    by (simp add: path_tail_def takeWhile_none)
next
  case False
  have "takeWhile (\<lambda>c. c \<noteq> sep) (rev t @ sep # rev (join [sep] cs)) = rev t"
    using assms by (intro takeWhile_until) simp
  with False show ?thesis
    by (simp add: path_tail_def join_snoc)
qed

lemma path_head_join:
  assumes "sep \<notin> set t"
  shows "path_head (join [sep] (cs @ [t])) = (if cs = [] then [] else join [sep] cs @ [sep])"
proof (cases "cs = []")
  case True
  with assms show ?thesis
    by (simp add: path_head_def dropWhile_none)
next
  case False
  have "dropWhile (\<lambda>c. c \<noteq> sep) (rev t @ sep # rev (join [sep] cs)) = sep # rev (join [sep] cs)"
    using assms by (intro dropWhile_until) simp
  with False show ?thesis
    by (simp add: path_head_def join_snoc)
qed

lemma dirname_join:
  assumes "sep \<notin> set t" and "\<forall>n\<in>set cs. n \<noteq> [] \<and> sep \<notin> set n"
  shows "dirname (join [sep] (cs @ [t])) = join [sep] cs"
proof (cases "cs = []")
  case True
  have "path_head t = []"
    using path_head_join [OF assms(1), of "[]"] by simp
  with True show ?thesis
    by (simp add: dirname_def)
next
  case False
  then have l: "last cs \<noteq> []" "sep \<notin> set (last cs)"
    using assms(2) by (simp_all add: last_in_set)
  from last_join [OF False l(1), of "[sep]"]
  have ne: "join [sep] cs \<noteq> []" and la: "last (join [sep] cs) = last (last cs)"
    by simp_all
  have nsep: "last (join [sep] cs) \<noteq> sep"
    using l la by (metis last_in_set)
  have hd_rev: "hd (rev (join [sep] cs)) \<noteq> sep"
    using ne nsep by (simp add: hd_rev)
  have strip: "dropWhile (\<lambda>c. c = sep) (rev (join [sep] cs)) = rev (join [sep] cs)"
    using ne hd_rev by (cases "rev (join [sep] cs)") simp_all
  have "last (join [sep] cs) \<in> set (join [sep] cs)"
    using ne by simp
  then have not_all: "join [sep] cs @ [sep] \<noteq> replicate (Suc (length (join [sep] cs))) sep"
    using nsep by (metis in_set_replicate replicate_Suc replicate_append_same append1_eq_conv)
  show ?thesis
    using False assms(1) strip not_all
    by (simp add: dirname_def path_head_join Let_def)
qed


lemma join_not_root:
  assumes "cs \<noteq> []" and "names cs"
  shows "join [sep] cs \<noteq> ''.''" and "join [sep] cs \<noteq> []"
proof -
  show "join [sep] cs \<noteq> ''.''"
  proof (cases cs)
    case Nil
    with assms show ?thesis by simp
  next
    case (Cons x xs)
    show ?thesis
    proof (cases xs)
      case Nil
      with Cons assms show ?thesis by (simp add: names_def)
    next
      case (Cons y ys)
      have "count_char sep (join [sep] cs) = length cs - 1"
        using assms by (intro count_sep_join) (auto simp: names_def)
      with \<open>cs = x # xs\<close> Cons have "count_char sep (join [sep] cs) \<noteq> 0"
        by simp
      moreover have "count_char sep ''.'' = 0"
        by (simp add: count_char_def sep_def)
      ultimately show ?thesis by metis
    qed
  qed
  have "last cs \<noteq> []"
    using assms by (simp add: names_def)
  with last_join [OF assms(1), of "[sep]"] show "join [sep] cs \<noteq> []"
    by simp
qed

lemma length_pred_succ: "cs \<noteq> [] \<Longrightarrow> int (length cs - 1) + 1 = int (length cs)"
  by (cases cs) simp_all

lemma dir_depth_join:
  assumes "cs \<noteq> []" and "names cs"
  shows "dir_depth (join [sep] cs) = int (length cs)"
proof -
  have "count_char sep (join [sep] cs) = length cs - 1"
    using assms by (intro count_sep_join) (auto simp: names_def)
  then show ?thesis
    using join_not_root(1) [OF assms] length_pred_succ [OF assms(1)] by (simp add: dir_depth_def)
qed

lemma parent_directory_join:
  assumes "names (cs @ [t])"
  shows "parent_directory (join [sep] (cs @ [t])) = (if cs = [] then ''.'' else join [sep] cs)"
proof -
  have "dirname (join [sep] (cs @ [t])) = join [sep] cs"
    using assms by (intro dirname_join) (auto simp: names_def)
  moreover have "cs \<noteq> [] \<Longrightarrow> join [sep] cs \<noteq> []"
    using assms by (intro join_not_root(2)) (auto simp: names_def)
  ultimately show ?thesis
    by (auto simp: parent_directory_def)
qed

lemma dir_depth_parent:
  assumes "cs \<noteq> []" and "names cs"
  shows "dir_depth (join [sep] cs) = 1 + dir_depth (parent_directory (join [sep] cs))"
proof -
  obtain bs t where cs: "cs = bs @ [t]"
    using assms(1) by (metis append_butlast_last_id)
  have nb: "names bs"
    using assms(2) cs by (simp add: names_def)
  have "dir_depth (parent_directory (join [sep] cs)) = int (length bs)"
  proof (cases "bs = []")
    case True
    then show ?thesis
      using parent_directory_join [of bs t] assms(2) cs by (simp add: dir_depth_def)
  next
    case False
    then show ?thesis
      using parent_directory_join [of bs t] assms(2) cs dir_depth_join [OF False nb] by simp
  qed
  then show ?thesis
    using dir_depth_join [OF assms] cs by simp
qed

lemma valid_file_document:
  assumes "valid_repo_path p"
  shows "\<exists>cs. names cs
           \<and> directory (file_document p x) = Some (if cs = [] then ''.'' else join [sep] cs)
           \<and> depth (file_document p x) = Some (int (length cs))"
proof -
  obtain cs t where comps: "split_sep p = cs @ [t]"
    using split_sep_nonempty [of p] by (metis append_butlast_last_id)
  have all: "names (cs @ [t])"
    using assms comps split_sep_free [of _ p] by (auto simp: valid_repo_path_def names_def)
  then have n: "names cs" and t: "sep \<notin> set t"
    by (simp_all add: names_def)
  have p: "p = join [sep] (cs @ [t])"
    using join_split_sep [of p] comps by simp
  have dn: "dirname p = join [sep] cs"
    unfolding p using all by (intro dirname_join) (auto simp: names_def)
  show ?thesis
  proof (cases "cs = []")
    case True
    with dn n show ?thesis
      by (intro exI [of _ cs]) (simp add: file_document_def Let_def)
  next
    case False
    have "count_char sep (join [sep] cs) = length cs - 1"
      using False n by (intro count_sep_join) (auto simp: names_def)
    moreover have "join [sep] cs \<noteq> []"
      using False n by (rule join_not_root(2))
    ultimately show ?thesis
      using dn n False length_pred_succ [OF False]
      by (intro exI [of _ cs]) (simp add: file_document_def Let_def)
  qed
qed

lemma load_documents_mem:
  "d \<in> set (load_documents all_files) \<Longrightarrow>
   \<exists>p t. (p, Text t) \<in> set all_files \<and> d = file_document p t"
  by (induction all_files rule: load_documents.induct) (auto split: if_splits)

lemma index_repository_mem:
  assumes "d \<in> set (index_repository split_text all_files)"
  shows "\<exists>p t chunk. (p, Text t) \<in> set all_files
           \<and> d = (file_document p t)\<lparr>page_content := chunk\<rparr>"
  using assms load_documents_mem [of _ all_files]
  by (fastforce simp: index_repository_def split_documents_def)

lemma indexed_directory_depth:
  assumes "\<forall>f\<in>set all_files. valid_repo_path (fst f)"
    and "d \<in> set (index_repository split_text all_files)"
  shows "\<exists>cs. names cs
           \<and> directory d = Some (if cs = [] then ''.'' else join [sep] cs)
           \<and> depth d = Some (int (length cs))"
proof -
  obtain p t chunk where f: "(p, Text t) \<in> set all_files"
    and d: "d = (file_document p t)\<lparr>page_content := chunk\<rparr>"
    using index_repository_mem [OF assms(2)] by blast
  have "valid_repo_path p"
    using assms(1) f by force
  from valid_file_document [OF this, of t] d show ?thesis
    by simp
qed

text \<open>
  C2. Let the indexer run on files whose paths are repository paths. Every record it
  persists has a directory and a depth that is not negative; the depth is 0 for the root
  sentinel and the number of separators in the directory plus one otherwise. The depth
  of a directory other than the root is one more than the depth of its parent, which
  makes it 1 under the root, and every persisted record of the parent carries the
  depth one less.
\<close>

theorem depth_follows_directory:
  assumes "\<forall>f\<in>set all_files. valid_repo_path (fst f)"
    and "d \<in> set (index_repository split_text all_files)"
  shows "\<exists>dir n. directory d = Some dir \<and> depth d = Some n \<and> 0 \<le> n
           \<and> (dir = ''.'' \<longrightarrow> n = 0)
           \<and> (dir \<noteq> ''.'' \<longrightarrow> n = int (count_char sep dir) + 1)
           \<and> (dir \<noteq> ''.'' \<longrightarrow> n = 1 + dir_depth (parent_directory dir))
           \<and> (dir \<noteq> ''.'' \<and> parent_directory dir = ''.'' \<longrightarrow> n = 1)
           \<and> (dir \<noteq> ''.'' \<longrightarrow>
                (\<forall>d'\<in>set (index_repository split_text all_files).
                   directory d' = Some (parent_directory dir) \<longrightarrow> depth d' = Some (n - 1)))"
proof -
  have rule: "\<exists>dir. directory r = Some dir \<and> depth r = Some (dir_depth dir)
                \<and> (dir \<noteq> ''.'' \<longrightarrow> dir_depth dir = 1 + dir_depth (parent_directory dir))
                \<and> 0 \<le> dir_depth dir"
    if r: "r \<in> set (index_repository split_text all_files)" for r
  proof -
    obtain cs where cs: "names cs"
      "directory r = Some (if cs = [] then ''.'' else join [sep] cs)"
      "depth r = Some (int (length cs))"
      using indexed_directory_depth [OF assms(1) r] by blast
    show ?thesis
    proof (cases "cs = []")
      case True
      with cs show ?thesis by (simp add: dir_depth_def)
    next
      case False
      with cs dir_depth_join [OF False cs(1)] dir_depth_parent [OF False cs(1)] show ?thesis
        by simp
    qed
  qed
  obtain dir where dir: "directory d = Some dir" "depth d = Some (dir_depth dir)"
    "dir \<noteq> ''.'' \<longrightarrow> dir_depth dir = 1 + dir_depth (parent_directory dir)" "0 \<le> dir_depth dir"
    using rule [OF assms(2)] by blast
  have parent: "depth d' = Some (dir_depth dir - 1)"
    if "dir \<noteq> ''.''" "d' \<in> set (index_repository split_text all_files)"
      "directory d' = Some (parent_directory dir)" for d'
    using rule [OF that(2)] that(1,3) dir(3) by auto
  show ?thesis
    using dir parent
    by (intro exI [of _ dir] exI [of _ "dir_depth dir"]) (auto simp: dir_depth_def)
qed


theorem depth_follows_directory_witness:
  "\<exists>dir n.
     directory \<lparr>page_content = ''z'', source = Some ''src/utils/d.py'', file_name = Some ''d.py'',
                file_extension = Some ''.py'', directory = Some ''src/utils'', depth = Some 2\<rparr>
       = Some dir
     \<and> depth \<lparr>page_content = ''z'', source = Some ''src/utils/d.py'', file_name = Some ''d.py'',
                file_extension = Some ''.py'', directory = Some ''src/utils'', depth = Some 2\<rparr>
       = Some n
     \<and> 0 \<le> n
     \<and> (dir = ''.'' \<longrightarrow> n = 0)
     \<and> (dir \<noteq> ''.'' \<longrightarrow> n = int (count_char sep dir) + 1)
     \<and> (dir \<noteq> ''.'' \<longrightarrow> n = 1 + dir_depth (parent_directory dir))
     \<and> (dir \<noteq> ''.'' \<and> parent_directory dir = ''.'' \<longrightarrow> n = 1)
     \<and> (dir \<noteq> ''.'' \<longrightarrow>
          (\<forall>d'\<in>set (index_repository whole_text nested_files).
             directory d' = Some (parent_directory dir) \<longrightarrow> depth d' = Some (n - 1)))"
proof -
  have "\<forall>f\<in>set nested_files. valid_repo_path (fst f)"
    unfolding nested_files_def by code_simp
  moreover have "\<lparr>page_content = ''z'', source = Some ''src/utils/d.py'', file_name = Some ''d.py'',
                   file_extension = Some ''.py'', directory = Some ''src/utils'', depth = Some 2\<rparr>
      \<in> set (index_repository whole_text nested_files)"
    unfolding nested_files_def by code_simp
  ultimately show ?thesis
    by (rule depth_follows_directory)
qed

text \<open>
  C10. In the index of files with repository paths, all records of one directory carry
  the same depth as any one of them, and when the call goes through, the record
  \<open>find_one\<close> returns for the directory, whichever it is, carries that depth too.
\<close>

theorem depth_determined_by_directory:
  assumes "\<forall>f\<in>set all_files. valid_repo_path (fst f)"
    and "docs coll = index_repository split_text all_files"
    and "d \<in> set (docs coll)" and "directory d = Some p"
  shows "(\<forall>d'\<in>set (docs coll). directory d' = Some p \<longrightarrow> depth d' = depth d)
         \<and> (fault coll FindOne = None \<longrightarrow>
              (\<exists>pd. find_one coll [Eq Directory p] = Inr (Some pd) \<and> depth pd = depth d))"
proof -
  have rule: "depth r = Some (dir_depth p)" if r: "r \<in> set (docs coll)" "directory r = Some p" for r
  proof -
    obtain cs where cs: "names cs"
      "directory r = Some (if cs = [] then ''.'' else join [sep] cs)"
      "depth r = Some (int (length cs))"
      using indexed_directory_depth [OF assms(1), of r split_text] r(1) assms(2) by auto
    show ?thesis
    proof (cases "cs = []")
      case True
      with cs r(2) show ?thesis by (simp add: dir_depth_def)
    next
      case False
      with cs r(2) dir_depth_join [OF False cs(1)] show ?thesis by simp
    qed
  qed
  have same: "\<forall>d'\<in>set (docs coll). directory d' = Some p \<longrightarrow> depth d' = depth d"
    using rule assms(3,4) by simp
  have found: "\<exists>pd. find_one coll [Eq Directory p] = Inr (Some pd) \<and> depth pd = depth d"
    if ok: "fault coll FindOne = None"
  proof -
    have "\<exists>x\<in>set (docs coll). directory x = Some p"
      using assms(3,4) by blast
    then obtain pd where pd: "List.find (\<lambda>x. directory x = Some p) (docs coll) = Some pd"
      by (cases "List.find (\<lambda>x. directory x = Some p) (docs coll)") (auto simp: find_None_iff)
    then have "pd \<in> set (docs coll)" "directory pd = Some p"
      by (auto simp: find_Some_iff)
    with same pd show ?thesis
      by (simp add: find_one_ok [OF ok])
  qed
  from same found show ?thesis
    by blast
qed

theorem depth_determined_by_directory_witness:
  "depth \<lparr>page_content = ''y'', source = Some ''src/b.py'', file_name = Some ''b.py'',
           file_extension = Some ''.py'', directory = Some ''src'', depth = Some 1\<rparr>
     = depth \<lparr>page_content = ''w'', source = Some ''src/c.py'', file_name = Some ''c.py'',
               file_extension = Some ''.py'', directory = Some ''src'', depth = Some 1\<rparr>
   \<and> (\<exists>pd. find_one (indexed whole_text nested_files) [Eq Directory ''src''] = Inr (Some pd)
          \<and> depth pd = depth \<lparr>page_content = ''w'', source = Some ''src/c.py'',
                                 file_name = Some ''c.py'', file_extension = Some ''.py'',
                                 directory = Some ''src'', depth = Some 1\<rparr>)"
proof -
  let ?b = "\<lparr>page_content = ''y'', source = Some ''src/b.py'', file_name = Some ''b.py'',
             file_extension = Some ''.py'', directory = Some ''src'', depth = Some 1\<rparr>"
  let ?c = "\<lparr>page_content = ''w'', source = Some ''src/c.py'', file_name = Some ''c.py'',
             file_extension = Some ''.py'', directory = Some ''src'', depth = Some 1\<rparr>"
  have valid: "\<forall>f\<in>set nested_files. valid_repo_path (fst f)"
    unfolding nested_files_def by code_simp
  have docs: "docs (indexed whole_text nested_files) = index_repository whole_text nested_files"
    by (simp add: indexed_def)
  have c: "?c \<in> set (docs (indexed whole_text nested_files))"
    unfolding nested_files_def by code_simp
  have b: "?b \<in> set (docs (indexed whole_text nested_files))"
    unfolding nested_files_def by code_simp
  have ok: "fault (indexed whole_text nested_files) FindOne = None"
    by (simp add: indexed_def no_fault_def)
  have dir: "directory ?c = Some ''src''" "directory ?b = Some ''src''"
    by simp_all
  from depth_determined_by_directory [OF valid docs c dir(1)] b dir(2) ok show ?thesis
    by blast
qed

section \<open>Files by extension\<close>

text \<open>The counts of the extension report add up to the number of chunk records.\<close>

lemma extension_groups_sum: "sum_list (map snd (extension_groups ds)) = length ds"
proof -
  have "sum_list (map snd (extension_groups ds))
      = sum_list (map (\<lambda>k. count_list (map file_extension ds) k) (remdups (map file_extension ds)))"
    by (simp add: extension_groups_def comp_def count_list_eq_length_filter filter_map eq_commute)
  also have "\<dots> = sum (count_list (map file_extension ds)) (set (map file_extension ds))"
    by (simp add: sum_list_distinct_conv_sum_set)
  also have "\<dots> = length (map file_extension ds)"
    by (intro sum_count_set) simp_all
  finally show ?thesis by simp
qed

lemma extension_counts_sum:
  assumes "fault coll Aggregate = None"
  shows "\<exists>rows. aggregate_extensions coll = Inr rows
           \<and> sum_list (map snd rows) = length (docs coll)"
proof -
  have d: "distinct (extension_groups (docs coll))"
    by (auto simp: extension_groups_def distinct_map inj_on_def)
  let ?rows = "sort_key (\<lambda>row. - int (snd row)) (extension_groups (docs coll))"
  have "sum_list (map snd ?rows) = sum snd (set ?rows)"
    using d by (intro sum_list_distinct_conv_sum_set) simp
  also have "\<dots> = sum_list (map snd (extension_groups (docs coll)))"
    using d by (simp add: sum_list_distinct_conv_sum_set)
  finally have "sum_list (map snd ?rows) = length (docs coll)"
    by (simp add: extension_groups_sum)
  moreover have "aggregate_extensions coll = Inr ?rows"
    using assms by (simp add: aggregate_extensions_def run_query_def)
  ultimately show ?thesis
    by blast
qed

text \<open>
  C4. A repository with the single file \<open>a.py\<close>, whose text the splitter cuts into two
  chunks: all file names are unique, \<open>count_total_files\<close> reports 1, and the counts of
  \<open>count_files_by_extension\<close> add up to 2.
\<close>

theorem extension_counts_count_chunks:
  "count_files_by_extension one_file_repo
     = Inr (''File extension counts:'' @ [CHR 0x0A] @ ''- .py: 2'')
   \<and> count_total_files one_file_repo = Inr ''Total number of unique original files indexed: 1''
   \<and> map file_name (docs one_file_repo) = [Some ''a.py'', Some ''a.py'']
   \<and> map source (docs one_file_repo) = [Some ''a.py'', Some ''a.py'']"
  unfolding one_file_repo_def by code_simp

end
